theory Spec2Isabelle
  imports Main "HOL-Library.AList"
begin

section \<open>JavaScript values, plain objects and exceptions\<close>

text \<open>
  The store keeps its tasks as plain objects (\<^verbatim>\<open>Record<string, Task>\<close>), builds them
  with object spread from untyped request and response data, and reads their properties
  by name. A plain object is an association list from property names to values, in
  insertion order: \<^verbatim>\<open>{...a, k: v}\<close> is \<open>AList.update k v a\<close> (a present key keeps its
  place, a new key goes last), \<^verbatim>\<open>delete a[k]\<close> is \<open>AList.delete k a\<close>, and reading a
  missing property gives \<^verbatim>\<open>undefined\<close>.
\<close>

datatype val =
    VUndefined
  | VNull
  | VStr string
  | VNum int
  | VBool bool
  | VArr "val list"
  | VObj "(string \<times> val) list"

type_synonym obj = "(string \<times> val) list"

definition get_prop :: "obj \<Rightarrow> string \<Rightarrow> val" where
  "get_prop ob k = (case map_of ob k of None \<Rightarrow> VUndefined | Some v \<Rightarrow> v)"

text \<open>\<^verbatim>\<open>{...a, ...b}\<close>: the properties of \<open>b\<close> are written over \<open>a\<close> in \<open>b\<close>'s order.\<close>

definition spread :: "obj \<Rightarrow> obj \<Rightarrow> obj" where
  "spread a b = fold (\<lambda>(k, v). AList.update k v) b a"

text \<open>JavaScript truthiness, as \<^verbatim>\<open>!x\<close>, \<^verbatim>\<open>x || y\<close> and \<^verbatim>\<open>if (x)\<close> read it.\<close>

fun truthy :: "val \<Rightarrow> bool" where
  "truthy VUndefined = False"
| "truthy VNull = False"
| "truthy (VStr s) = (s \<noteq> [])"
| "truthy (VNum n) = (n \<noteq> 0)"
| "truthy (VBool b) = b"
| "truthy (VArr _) = True"
| "truthy (VObj _) = True"

definition js_or :: "val \<Rightarrow> val \<Rightarrow> val" where
  "js_or a b = (if truthy a then a else b)"

text \<open>
  What the code can catch. In the client: a \<^verbatim>\<open>TypeError\<close> of the runtime (a property
  read on \<^verbatim>\<open>undefined\<close>), an \<^verbatim>\<open>Error\<close> the store throws itself, and the error of a
  rejected HTTP call, which carries the response status when the server answered and
  none when it did not (no connection, timeout). In the server: a schema validation
  error and an error of the database driver. The handlers read only the message.
\<close>

datatype exn =
    TypeError string
  | Error string
  | AxiosError string "nat option"
  | ValidationError string
  | MongoError string

fun message :: "exn \<Rightarrow> string" where
  "message (TypeError m) = m"
| "message (Error m) = m"
| "message (AxiosError m _) = m"
| "message (ValidationError m) = m"
| "message (MongoError m) = m"

datatype 'a outcome = Resolved 'a | Rejected exn

text \<open>\<^verbatim>\<open>localStorage.getItem('taskflow_token')\<close> is a string or \<^verbatim>\<open>null\<close>; \<^verbatim>\<open>!token\<close> holds
  for \<^verbatim>\<open>null\<close> and for the empty string.\<close>

definition no_token :: "string option \<Rightarrow> bool" where
  "no_token token = (case token of None \<Rightarrow> True | Some t \<Rightarrow> t = [])"

text \<open>Decimal digits of a number, for the template literal \<^verbatim>\<open>`temp-${Date.now()}`\<close>.\<close>

definition digit :: "nat \<Rightarrow> char" where
  "digit d = char_of (48 + d)"

fun decimal :: "nat \<Rightarrow> string" where
  "decimal n = (if n < 10 then [digit n] else decimal (n div 10) @ [digit (n mod 10)])"

declare decimal.simps [simp del]

text \<open>
  \<^verbatim>\<open>String(v)\<close>, as a template literal and a computed property key apply it. Numbers
  are integers here; an array joins its elements with commas, \<^verbatim>\<open>null\<close> and
  \<^verbatim>\<open>undefined\<close> elements giving the empty string.
\<close>

fun join :: "string \<Rightarrow> string list \<Rightarrow> string" where
  "join sep [] = []"
| "join sep [x] = x"
| "join sep (x # y # ys) = x @ sep @ join sep (y # ys)"

fun to_string :: "val \<Rightarrow> string" where
  "to_string VUndefined = ''undefined''"
| "to_string VNull = ''null''"
| "to_string (VStr s) = s"
| "to_string (VNum n) = (if n < 0 then ''-'' @ decimal (nat (- n)) else decimal (nat n))"
| "to_string (VBool b) = (if b then ''true'' else ''false'')"
| "to_string (VArr xs) =
     join '','' (map (\<lambda>x. if x = VUndefined \<or> x = VNull then [] else to_string x) xs)"
| "to_string (VObj _) = ''[object Object]''"

section \<open>The projection held by the store (src/types/task.ts, src/store/taskStore.ts)\<close>

record column =
  col_id :: string
  col_title :: string
  taskIds :: "string list"
  col_position :: int

record board =
  board_id :: string
  board_title :: string
  board_description :: string
  columns :: "column list"
  board_createdAt :: string
  board_updatedAt :: string
  isShared :: bool
  isPublic :: bool
  ownerId :: string
  members :: "obj list"
  taskCount :: "int option"
  ownerName :: "string option"
  ownerAvatar :: "string option"

record TaskState =
  boards :: "board list"
  publicBoards :: "board list"
  tasks :: "(string \<times> obj) list"
  currentBoardId :: "string option"
  notifications :: "obj list"
  availableLabels :: "obj list"
  loading :: bool
  error :: "string option"

text \<open>What a store action asks of the outside world.\<close>

datatype effect =
    ApiCreateTask obj
  | ApiUpdateTask string obj
  | ApiDeleteTask string
  | ToastError string
  | FetchNotifications
  | FetchTasks string
  | FetchBoards

section \<open>Array helpers\<close>

text \<open>
  \<^verbatim>\<open>xs.splice(start, 0, x)\<close>: a negative start counts from the end and stops at 0, a
  start past the end is the end.
\<close>

definition splice_insert :: "'a list \<Rightarrow> int \<Rightarrow> 'a \<Rightarrow> 'a list" where
  "splice_insert xs start x =
     (let len = int (length xs);
          k = (if start < 0 then max (len + start) 0 else min start len)
      in take (nat k) xs @ x # drop (nat k) xs)"

section \<open>moveTask (taskStore.ts, lines 402-466)\<close>

text \<open>The callback of \<^verbatim>\<open>b.columns.map\<close>, in the source's case order.\<close>

definition move_column :: "string \<Rightarrow> string \<Rightarrow> string \<Rightarrow> int \<Rightarrow> column \<Rightarrow> column" where
  "move_column taskId sourceStatus destStatus destIndex col =
     (if col_id col = sourceStatus \<and> col_id col = destStatus then
        col\<lparr>taskIds := splice_insert (filter (\<lambda>i. i \<noteq> taskId) (taskIds col)) destIndex taskId\<rparr>
      else if col_id col = sourceStatus then
        col\<lparr>taskIds := filter (\<lambda>i. i \<noteq> taskId) (taskIds col)\<rparr>
      else if col_id col = destStatus then
        col\<lparr>taskIds := splice_insert (filter (\<lambda>i. i \<noteq> taskId) (taskIds col)) destIndex taskId\<rparr>
      else col)"

definition move_boards :: "val \<Rightarrow> string \<Rightarrow> string \<Rightarrow> string \<Rightarrow> int \<Rightarrow> board list \<Rightarrow> board list" where
  "move_boards boardId taskId sourceStatus destStatus destIndex bs =
     map (\<lambda>b. if VStr (board_id b) \<noteq> boardId then b
              else b\<lparr>columns := map (move_column taskId sourceStatus destStatus destIndex) (columns b)\<rparr>)
         bs"

text \<open>The write the timer callback will issue, and the snapshot it restores on failure.\<close>

record move_deferred =
  originalState :: TaskState
  md_taskId :: string
  md_status :: string
  md_position :: int

text \<open>
  The synchronous part of \<^verbatim>\<open>moveTask\<close>. The callback of \<^verbatim>\<open>boards.find\<close> reads
  \<^verbatim>\<open>task.boardId\<close>: for a task the map does not hold it throws as soon as there is a
  board to test (with no board at all, \<^verbatim>\<open>find\<close> gives \<^verbatim>\<open>undefined\<close> and the action
  returns). A task whose board is not in \<^verbatim>\<open>boards\<close> returns with nothing changed and
  nothing scheduled; otherwise one \<^verbatim>\<open>set\<close> installs the new task map and the new
  boards, and the write is scheduled with \<^verbatim>\<open>setTimeout(..., 0)\<close>.
\<close>

definition moveTask ::
  "TaskState \<Rightarrow> string \<Rightarrow> string \<Rightarrow> string \<Rightarrow> int \<Rightarrow> exn + TaskState \<times> move_deferred option" where
  "moveTask st taskId sourceStatus destStatus destIndex =
     (case map_of (tasks st) taskId of
        None \<Rightarrow>
          if boards st = [] then Inr (st, None)
          else Inl (TypeError ''Cannot read properties of undefined (reading 'boardId')'')
      | Some task \<Rightarrow>
          (case find (\<lambda>b. VStr (board_id b) = get_prop task ''boardId'') (boards st) of
             None \<Rightarrow> Inr (st, None)
           | Some _ \<Rightarrow>
               Inr (st\<lparr>tasks :=
                          AList.update taskId
                            (AList.update ''status'' (VStr destStatus)
                               (AList.update ''columnId'' (VStr destStatus) task))
                            (tasks st),
                        boards :=
                          move_boards (get_prop task ''boardId'') taskId sourceStatus destStatus destIndex
                            (boards st)\<rparr>,
                    Some \<lparr>originalState = st, md_taskId = taskId, md_status = destStatus,
                          md_position = destIndex\<rparr>)))"

text \<open>
  The timer callback, run against the state current at that moment: without a token it
  throws before any request; otherwise it issues the update and, when the request is
  rejected, restores the snapshot's \<^verbatim>\<open>tasks\<close> and \<^verbatim>\<open>boards\<close>.
\<close>

definition moveTask_write :: "move_deferred \<Rightarrow> effect" where
  "moveTask_write d =
     ApiUpdateTask (md_taskId d) [(''status'', VStr (md_status d)), (''position'', VNum (md_position d))]"

definition moveTask_revert :: "move_deferred \<Rightarrow> exn \<Rightarrow> TaskState \<Rightarrow> TaskState" where
  "moveTask_revert d e cur =
     cur\<lparr>tasks := tasks (originalState d), boards := boards (originalState d),
         error := Some (message e)\<rparr>"

definition moveTask_deferred ::
  "move_deferred \<Rightarrow> string option \<Rightarrow> unit outcome \<Rightarrow> TaskState \<Rightarrow> TaskState \<times> effect list" where
  "moveTask_deferred d token result cur =
     (if no_token token then
        (moveTask_revert d (Error ''No token'') cur, [ToastError ''Failed to save task move''])
      else
        (case result of
           Resolved _ \<Rightarrow> (cur, [moveTask_write d])
         | Rejected e \<Rightarrow>
             (moveTask_revert d e cur, [moveTask_write d, ToastError ''Failed to save task move''])))"

text \<open>The state after a call, whether it threw, returned early or moved the task.\<close>

definition after_move :: "TaskState \<Rightarrow> string \<Rightarrow> string \<Rightarrow> string \<Rightarrow> int \<Rightarrow> TaskState" where
  "after_move st taskId sourceStatus destStatus destIndex =
     (case moveTask st taskId sourceStatus destStatus destIndex of
        Inl _ \<Rightarrow> st
      | Inr (st', _) \<Rightarrow> st')"

text \<open>A call, and a run of calls, each on the state the one before left.\<close>

record move_call =
  mc_taskId :: string
  mc_source :: string
  mc_dest :: string
  mc_index :: int

definition apply_call :: "TaskState \<Rightarrow> move_call \<Rightarrow> TaskState" where
  "apply_call st c = after_move st (mc_taskId c) (mc_source c) (mc_dest c) (mc_index c)"

definition run_moves :: "TaskState \<Rightarrow> move_call list \<Rightarrow> TaskState" where
  "run_moves st cs = foldl apply_call st cs"

section \<open>createTask (taskStore.ts, lines 279-357)\<close>

definition tempId_of :: "nat \<Rightarrow> string" where
  "tempId_of now = ''temp-'' @ decimal now"

definition optimisticTask :: "obj \<Rightarrow> string \<Rightarrow> string \<Rightarrow> string \<Rightarrow> obj" where
  "optimisticTask data tempId createdAt updatedAt =
     AList.update ''updatedAt'' (VStr updatedAt)
       (AList.update ''createdAt'' (VStr createdAt)
          (AList.update ''columnId'' (get_prop data ''columnId'')
             (AList.update ''id'' (VStr tempId) data)))"

text \<open>The first \<^verbatim>\<open>set\<close>: the optimistic task enters the map and the tail of its column.\<close>

definition createTask_optimistic :: "obj \<Rightarrow> string \<Rightarrow> string \<Rightarrow> string \<Rightarrow> TaskState \<Rightarrow> TaskState" where
  "createTask_optimistic data tempId createdAt updatedAt st =
     st\<lparr>tasks := AList.update tempId (optimisticTask data tempId createdAt updatedAt) (tasks st),
        boards :=
          map (\<lambda>b. if VStr (board_id b) \<noteq> get_prop data ''boardId'' then b
                   else b\<lparr>columns :=
                          map (\<lambda>c. if VStr (col_id c) = get_prop data ''columnId''
                                   then c\<lparr>taskIds := taskIds c @ [tempId]\<rparr> else c)
                              (columns b)\<rparr>)
              (boards st)\<rparr>"

text \<open>
  The task built from the response. Its \<^verbatim>\<open>id\<close> is used as a key of the task map and
  put into a column list; both hold strings here, so the id is taken through
  \<open>to_string\<close> (the identity on the string ids the server sends).
\<close>

definition newTask_of :: "obj \<Rightarrow> obj" where
  "newTask_of r =
     AList.update ''columnId'' (get_prop r ''status'')
       (AList.update ''id'' (js_or (get_prop r ''_id'') (get_prop r ''id'')) r)"

definition newTask_id :: "obj \<Rightarrow> string" where
  "newTask_id newTask = to_string (get_prop newTask ''id'')"

text \<open>The \<^verbatim>\<open>set\<close> of the success path.\<close>

definition createTask_replace :: "string \<Rightarrow> obj \<Rightarrow> TaskState \<Rightarrow> TaskState" where
  "createTask_replace tempId newTask st =
     st\<lparr>tasks := AList.update (newTask_id newTask) newTask (AList.delete tempId (tasks st)),
        boards :=
          map (\<lambda>b. if VStr (board_id b) \<noteq> get_prop newTask ''boardId'' then b
                   else b\<lparr>columns :=
                          map (\<lambda>c. if VStr (col_id c) = get_prop newTask ''columnId''
                                   then c\<lparr>taskIds :=
                                            map (\<lambda>i. if i = tempId then newTask_id newTask else i)
                                                (taskIds c)\<rparr>
                                   else c)
                              (columns b)\<rparr>)
              (boards st)\<rparr>"

text \<open>The \<^verbatim>\<open>set\<close> of the \<^verbatim>\<open>catch\<close> block.\<close>

definition createTask_rollback :: "obj \<Rightarrow> string \<Rightarrow> exn \<Rightarrow> TaskState \<Rightarrow> TaskState" where
  "createTask_rollback data tempId e st =
     st\<lparr>tasks := AList.delete tempId (tasks st),
        boards :=
          map (\<lambda>b. if VStr (board_id b) \<noteq> get_prop data ''boardId'' then b
                   else b\<lparr>columns :=
                          map (\<lambda>c. c\<lparr>taskIds := filter (\<lambda>i. i \<noteq> tempId) (taskIds c)\<rparr>)
                              (columns b)\<rparr>)
              (boards st),
        error := Some (message e)\<rparr>"

definition createTask_request :: "obj \<Rightarrow> effect" where
  "createTask_request data = ApiCreateTask (AList.update ''status'' (get_prop data ''columnId'') data)"

definition toast_message :: "exn \<Rightarrow> string" where
  "toast_message e = (if message e \<noteq> [] then message e else ''Failed to create task'')"

text \<open>
  The \<^verbatim>\<open>try\<close> block, run against the state current when it runs: without a token it
  throws before any request; a rejected request reaches the same \<^verbatim>\<open>catch\<close>. The
  result is the new state, what was asked of the outside, and the returned id
  (\<^verbatim>\<open>null\<close> on failure).
\<close>

definition createTask_settle ::
  "obj \<Rightarrow> string \<Rightarrow> string option \<Rightarrow> obj outcome \<Rightarrow> TaskState \<Rightarrow> TaskState \<times> effect list \<times> string option" where
  "createTask_settle data tempId token result st =
     (if no_token token then
        (createTask_rollback data tempId (Error ''No token found'') st,
         [ToastError (toast_message (Error ''No token found''))], None)
      else
        (case result of
           Resolved r \<Rightarrow>
             (createTask_replace tempId (newTask_of r) st,
              [createTask_request data, FetchNotifications], Some (newTask_id (newTask_of r)))
         | Rejected e \<Rightarrow>
             (createTask_rollback data tempId e st,
              [createTask_request data, ToastError (toast_message e)], None)))"

text \<open>
  The whole action when nothing else touches the store in between. \<open>now\<close> is
  \<^verbatim>\<open>Date.now()\<close>; the two timestamps are the two \<^verbatim>\<open>new Date().toISOString()\<close>.
\<close>

definition createTask ::
  "nat \<Rightarrow> string \<Rightarrow> string \<Rightarrow> obj \<Rightarrow> string option \<Rightarrow> obj outcome \<Rightarrow> TaskState
     \<Rightarrow> TaskState \<times> effect list \<times> string option" where
  "createTask now createdAt updatedAt data token result st =
     createTask_settle data (tempId_of now) token result
       (createTask_optimistic data (tempId_of now) createdAt updatedAt st)"

section \<open>updateTask and deleteTask (taskStore.ts, lines 359-400)\<close>

text \<open>
  Both actions run to their \<^verbatim>\<open>await\<close> without a \<^verbatim>\<open>set\<close>: \<open>_begin\<close> is the state and
  the request at that point (no request without a token, and the action then returns),
  \<open>_settle\<close> is what runs when the request has completed.
\<close>

definition updateTask_request :: "string \<Rightarrow> obj \<Rightarrow> effect" where
  "updateTask_request taskId updates =
     ApiUpdateTask taskId (AList.update ''status'' (get_prop updates ''columnId'') updates)"

definition updateTask_begin :: "string option \<Rightarrow> string \<Rightarrow> obj \<Rightarrow> TaskState \<Rightarrow> TaskState \<times> effect list" where
  "updateTask_begin token taskId updates st =
     (if no_token token then (st, []) else (st, [updateTask_request taskId updates]))"

definition updateTask_settle :: "string \<Rightarrow> obj \<Rightarrow> unit outcome \<Rightarrow> TaskState \<Rightarrow> TaskState" where
  "updateTask_settle taskId updates result st =
     (case result of
        Resolved _ \<Rightarrow>
          st\<lparr>tasks :=
               AList.update taskId
                 (spread (case map_of (tasks st) taskId of None \<Rightarrow> [] | Some t \<Rightarrow> t) updates)
                 (tasks st)\<rparr>
      | Rejected e \<Rightarrow> st\<lparr>error := Some (message e)\<rparr>)"

text \<open>
  \<^verbatim>\<open>deleteTask\<close> reads the task before the request. After the request, the callback of
  \<^verbatim>\<open>boards.map\<close> reads \<^verbatim>\<open>task.boardId\<close>: for a task that was not in the map this
  throws inside the \<^verbatim>\<open>try\<close> as soon as there is a board, and the \<^verbatim>\<open>catch\<close> records
  the message.
\<close>

definition deleteTask_begin ::
  "string option \<Rightarrow> string \<Rightarrow> TaskState \<Rightarrow> TaskState \<times> effect list \<times> obj option" where
  "deleteTask_begin token taskId st =
     (if no_token token then (st, [], None)
      else (st, [ApiDeleteTask taskId], map_of (tasks st) taskId))"

definition deleteTask_settle :: "string \<Rightarrow> obj option \<Rightarrow> unit outcome \<Rightarrow> TaskState \<Rightarrow> TaskState" where
  "deleteTask_settle taskId task result st =
     (case result of
        Rejected e \<Rightarrow> st\<lparr>error := Some (message e)\<rparr>
      | Resolved _ \<Rightarrow>
          (case task of
             None \<Rightarrow>
               if boards st = [] then st\<lparr>tasks := AList.delete taskId (tasks st)\<rparr>
               else st\<lparr>error := Some ''Cannot read properties of undefined (reading 'boardId')''\<rparr>
           | Some t \<Rightarrow>
               st\<lparr>tasks := AList.delete taskId (tasks st),
                  boards :=
                    map (\<lambda>b. if VStr (board_id b) \<noteq> get_prop t ''boardId'' then b
                             else b\<lparr>columns :=
                                    map (\<lambda>c. c\<lparr>taskIds := filter (\<lambda>i. i \<noteq> taskId) (taskIds c)\<rparr>)
                                        (columns b)\<rparr>)
                        (boards st)\<rparr>))"

section \<open>The projection and its partition by column\<close>

text \<open>The projection is the task map and the boards.\<close>

definition projection :: "TaskState \<Rightarrow> (string \<times> obj) list \<times> board list" where
  "projection st = (tasks st, boards st)"

text \<open>How often a task id stands in the column lists of a board.\<close>

definition occurrences :: "board \<Rightarrow> string \<Rightarrow> nat" where
  "occurrences b tid = sum_list (map (\<lambda>c. count_list (taskIds c) tid) (columns b))"

definition board_task_ids :: "board \<Rightarrow> string list" where
  "board_task_ids b = concat (map taskIds (columns b))"

text \<open>
  Every id listed in a board stands there exactly once, and every task of the map
  stands exactly once in each board that carries the task's \<^verbatim>\<open>boardId\<close>.
\<close>

definition partitioned :: "TaskState \<Rightarrow> bool" where
  "partitioned st =
     (\<forall>b \<in> set (boards st).
        (\<forall>tid \<in> set (board_task_ids b). occurrences b tid = 1) \<and>
        (\<forall>(tid, task) \<in> set (tasks st).
           VStr (board_id b) = get_prop task ''boardId'' \<longrightarrow> occurrences b tid = 1))"

text \<open>Column ids name columns: no two columns of a board share one.\<close>

definition distinct_columns :: "TaskState \<Rightarrow> bool" where
  "distinct_columns st = (\<forall>b \<in> set (boards st). distinct (map col_id (columns b)))"

text \<open>
  A call names its columns rightly when, on every board of the task, the destination is
  a column of the board and the source is the column that lists the task.
\<close>

definition names_columns :: "TaskState \<Rightarrow> move_call \<Rightarrow> bool" where
  "names_columns st c =
     (case map_of (tasks st) (mc_taskId c) of
        None \<Rightarrow> True
      | Some task \<Rightarrow>
          (\<forall>b \<in> set (boards st).
             VStr (board_id b) = get_prop task ''boardId'' \<longrightarrow>
               mc_dest c \<in> set (map col_id (columns b)) \<and>
               (\<forall>col \<in> set (columns b).
                  mc_taskId c \<in> set (taskIds col) \<longrightarrow> col_id col = mc_source c)))"

fun calls_name_columns :: "TaskState \<Rightarrow> move_call list \<Rightarrow> bool" where
  "calls_name_columns st [] = True"
| "calls_name_columns st (c # cs) = (names_columns st c \<and> calls_name_columns (apply_call st c) cs)"

section \<open>The server's collections (server/models)\<close>

text \<open>
  Documents carry the fields the scheduler and the handlers read. Object ids are
  strings, dates are milliseconds since the epoch.
\<close>

record member_doc =
  m_id :: "string option"
  m_name :: string
  m_email :: string
  m_role :: string
  m_status :: string

record board_doc =
  b_id :: string
  b_name :: string
  b_isPublic :: bool
  b_ownerId :: string
  b_members :: "member_doc list"

record task_doc =
  t_id :: string
  t_title :: string
  t_status :: string
  t_dueDate :: "int option"
  t_boardId :: string
  t_userId :: string

record notification_doc =
  n_userId :: string
  n_message :: string
  n_type :: string
  n_boardId :: "string option"
  n_taskId :: "string option"
  n_read :: bool
  n_createdAt :: int

text \<open>What \<^verbatim>\<open>Notification.create\<close> is given: any field may be missing.\<close>

record notification_input =
  in_userId :: "string option"
  in_message :: "string option"
  in_type :: "string option"
  in_boardId :: "string option"
  in_taskId :: "string option"

text \<open>
  An index of a schema: the fields of its key and whether it was declared
  \<^verbatim>\<open>unique\<close>. \<^verbatim>\<open>notificationSchema\<close> declares one index,
  \<^verbatim>\<open>{ userId: 1, createdAt: -1 }\<close>, with no options.
\<close>

record index_spec =
  idx_fields :: "string list"
  idx_unique :: bool

definition notificationSchema_indexes :: "index_spec list" where
  "notificationSchema_indexes = [\<lparr>idx_fields = [''userId'', ''createdAt''], idx_unique = False\<rparr>]"

definition notification_types :: "string list" where
  "notification_types =
     [''board_created'', ''task_created'', ''task_deadline'', ''board_invite'', ''task_moved'',
      ''task_deleted'', ''added_to_board'', ''member_removed'', ''member_left'',
      ''comment_added'', ''role_changed'', ''mention'']"

definition notification_field :: "notification_doc \<Rightarrow> string \<Rightarrow> val" where
  "notification_field n f =
     (if f = ''userId'' then VStr (n_userId n)
      else if f = ''message'' then VStr (n_message n)
      else if f = ''type'' then VStr (n_type n)
      else if f = ''boardId'' then (case n_boardId n of None \<Rightarrow> VUndefined | Some b \<Rightarrow> VStr b)
      else if f = ''taskId'' then (case n_taskId n of None \<Rightarrow> VUndefined | Some t \<Rightarrow> VStr t)
      else if f = ''read'' then VBool (n_read n)
      else if f = ''createdAt'' then VNum (n_createdAt n)
      else VUndefined)"

text \<open>A unique index refuses a document whose key an existing document already has.\<close>

definition duplicate_key :: "index_spec list \<Rightarrow> notification_doc list \<Rightarrow> notification_doc \<Rightarrow> bool" where
  "duplicate_key idxs docs d =
     (\<exists>ix \<in> set idxs. idx_unique ix \<and>
        (\<exists>e \<in> set docs.
           map (notification_field e) (idx_fields ix) = map (notification_field d) (idx_fields ix)))"

text \<open>
  \<^verbatim>\<open>Notification.create\<close>: the schema's validation (\<^verbatim>\<open>userId\<close>, \<^verbatim>\<open>message\<close> and
  \<^verbatim>\<open>type\<close> are required, a required string must not be empty, \<^verbatim>\<open>type\<close> is one of
  the enumeration), then the insert, which the collection's unique indexes can refuse.
  \<^verbatim>\<open>read\<close> defaults to \<^verbatim>\<open>false\<close>; \<open>now\<close> stamps \<^verbatim>\<open>createdAt\<close>.
\<close>

definition Notification_create ::
  "index_spec list \<Rightarrow> int \<Rightarrow> notification_input \<Rightarrow> notification_doc list
     \<Rightarrow> exn + notification_doc \<times> notification_doc list" where
  "Notification_create idxs now inp docs =
     (case (in_userId inp, in_message inp, in_type inp) of
        (Some u, Some m, Some ty) \<Rightarrow>
          if m = [] \<or> ty = [] \<or> ty \<notin> set notification_types then
            Inl (ValidationError ''Notification validation failed'')
          else
            (let d = \<lparr>n_userId = u, n_message = m, n_type = ty, n_boardId = in_boardId inp,
                      n_taskId = in_taskId inp, n_read = False, n_createdAt = now\<rparr>
             in if duplicate_key idxs docs d then Inl (MongoError ''E11000 duplicate key error'')
                else Inr (d, docs @ [d]))
      | _ \<Rightarrow> Inl (ValidationError ''Notification validation failed''))"

text \<open>The task_deadline notifications stored for a user and a task.\<close>

definition is_deadline_for :: "string \<Rightarrow> string \<Rightarrow> notification_doc \<Rightarrow> bool" where
  "is_deadline_for userId taskId n =
     (n_userId n = userId \<and> n_taskId n = Some taskId \<and> n_type n = ''task_deadline'')"

definition deadline_count :: "notification_doc list \<Rightarrow> string \<Rightarrow> string \<Rightarrow> nat" where
  "deadline_count docs userId taskId = length (filter (is_deadline_for userId taskId) docs)"

section \<open>The server process: scheduler and socket handlers\<close>

text \<open>
  The collections, the socket rooms (pairs of a room name and a socket id), the events
  emitted to rooms and the console.
\<close>

record server =
  tasks_coll :: "task_doc list"
  boards_coll :: "board_doc list"
  notifications_coll :: "notification_doc list"
  rooms :: "(string \<times> string) set"
  emitted :: "(string \<times> string \<times> notification_doc) list"
  console :: "string list"

text \<open>
  The operations of a tick that can throw for reasons outside the program (the
  database or the transport); \<open>fails\<close> gives, for a run, the exception of each
  operation that throws.
\<close>

datatype tick_op =
    FindTasks
  | FindNotification string
  | CreateNotification string
  | EmitNotification string

text \<open>
  The query of the tick, with \<^verbatim>\<open>populate('boardId')\<close>: each task comes with its board
  document, or \<^verbatim>\<open>null\<close> when no board has that id. \<open>tomorrow\<close> is \<open>now\<close> moved one
  calendar day on (\<^verbatim>\<open>setDate(getDate() + 1)\<close>).
\<close>

definition due_soon :: "int \<Rightarrow> int \<Rightarrow> task_doc \<Rightarrow> bool" where
  "due_soon now tomorrow t =
     ((case t_dueDate t of None \<Rightarrow> False | Some d \<Rightarrow> now \<le> d \<and> d \<le> tomorrow)
      \<and> t_status t \<noteq> ''done'')"

definition populate :: "board_doc list \<Rightarrow> task_doc \<Rightarrow> task_doc \<times> board_doc option" where
  "populate bs t = (t, find (\<lambda>b. b_id b = t_boardId t) bs)"

definition find_due_tasks :: "int \<Rightarrow> int \<Rightarrow> server \<Rightarrow> (task_doc \<times> board_doc option) list" where
  "find_due_tasks now tomorrow sv =
     map (populate (boards_coll sv)) (filter (due_soon now tomorrow) (tasks_coll sv))"

definition deadline_message :: "task_doc \<Rightarrow> board_doc \<Rightarrow> string" where
  "deadline_message t b =
     ''Deadline approaching: '' @ [CHR 0x22] @ t_title t @ [CHR 0x22] @ '' in board '' @ [CHR 0x22]
       @ b_name b @ [CHR 0x22] @ '' is due within 24 hours!''"

text \<open>The document the scheduler asks \<^verbatim>\<open>Notification.create\<close> for, and the one stored.\<close>

definition deadline_input :: "string \<Rightarrow> string \<Rightarrow> string \<Rightarrow> string \<Rightarrow> notification_input" where
  "deadline_input userId taskId boardId msg =
     \<lparr>in_userId = Some userId, in_message = Some msg, in_type = Some ''task_deadline'',
      in_boardId = Some boardId, in_taskId = Some taskId\<rparr>"

definition deadline_doc :: "int \<Rightarrow> string \<Rightarrow> string \<Rightarrow> string \<Rightarrow> string \<Rightarrow> notification_doc" where
  "deadline_doc now userId taskId boardId msg =
     \<lparr>n_userId = userId, n_message = msg, n_type = ''task_deadline'', n_boardId = Some boardId,
      n_taskId = Some taskId, n_read = False, n_createdAt = now\<rparr>"

text \<open>
  The body of the \<^verbatim>\<open>for\<close> loop for one task: the new server state, and the exception
  that left the body, if one did.
\<close>

definition process_task ::
  "(tick_op \<Rightarrow> exn option) \<Rightarrow> int \<Rightarrow> task_doc \<times> board_doc option \<Rightarrow> server \<Rightarrow> server \<times> exn option" where
  "process_task fails now tb sv =
     (case tb of (task, board) \<Rightarrow>
        (case fails (FindNotification (t_id task)) of
           Some e \<Rightarrow> (sv, Some e)
         | None \<Rightarrow>
            (case (find (is_deadline_for (t_userId task) (t_id task)) (notifications_coll sv), board) of
               (None, Some b) \<Rightarrow>
                 (case fails (CreateNotification (t_id task)) of
                    Some e \<Rightarrow> (sv, Some e)
                  | None \<Rightarrow>
                     (case Notification_create notificationSchema_indexes now
                             (deadline_input (t_userId task) (t_id task) (b_id b)
                                (deadline_message task b))
                             (notifications_coll sv) of
                        Inl e \<Rightarrow> (sv, Some e)
                      | Inr (notification, docs) \<Rightarrow>
                          (let sv1 = sv\<lparr>notifications_coll := docs,
                                        console := console sv @
                                          [''Deadline notification created for task: '' @ t_title task]\<rparr>
                           in case fails (EmitNotification (t_id task)) of
                                Some e \<Rightarrow> (sv1, Some e)
                              | None \<Rightarrow>
                                  (sv1\<lparr>emitted := emitted sv1 @
                                          [(''user:'' @ t_userId task, ''new_notification'',
                                            notification)]\<rparr>,
                                   None))))
             | _ \<Rightarrow> (sv, None))))"

text \<open>The \<^verbatim>\<open>for\<close> loop: an exception leaves it, with what was done so far kept.\<close>

fun process_tasks ::
  "(tick_op \<Rightarrow> exn option) \<Rightarrow> int \<Rightarrow> (task_doc \<times> board_doc option) list \<Rightarrow> server
     \<Rightarrow> server \<times> exn option" where
  "process_tasks fails now [] sv = (sv, None)"
| "process_tasks fails now (tb # tbs) sv =
     (case process_task fails now tb sv of
        (sv', Some e) \<Rightarrow> (sv', Some e)
      | (sv', None) \<Rightarrow> process_tasks fails now tbs sv')"

text \<open>One tick: the \<^verbatim>\<open>try\<close> around the query and the loop, and its \<^verbatim>\<open>catch\<close>.\<close>

definition log_error :: "exn \<Rightarrow> server \<Rightarrow> server" where
  "log_error e sv = sv\<lparr>console := console sv @ [''Deadline checker error: '' @ message e]\<rparr>"

definition checkDeadlines :: "(tick_op \<Rightarrow> exn option) \<Rightarrow> int \<Rightarrow> int \<Rightarrow> server \<Rightarrow> server" where
  "checkDeadlines fails now tomorrow sv =
     (case fails FindTasks of
        Some e \<Rightarrow> log_error e sv
      | None \<Rightarrow>
          (case process_tasks fails now (find_due_tasks now tomorrow sv) sv of
             (sv', Some e) \<Rightarrow> log_error e sv'
           | (sv', None) \<Rightarrow> sv'))"

definition no_failure :: "tick_op \<Rightarrow> exn option" where
  "no_failure op = None"

text \<open>
  The socket handlers: each joins the socket to the room named by the payload. The
  handler takes the socket and the payload, nothing else.
\<close>

definition on_join_board :: "string \<Rightarrow> val \<Rightarrow> server \<Rightarrow> server" where
  "on_join_board socketId boardId sv =
     sv\<lparr>rooms := insert (''board:'' @ to_string boardId, socketId) (rooms sv)\<rparr>"

definition on_join_user :: "string \<Rightarrow> val \<Rightarrow> server \<Rightarrow> server" where
  "on_join_user socketId userId sv =
     sv\<lparr>rooms := insert (''user:'' @ to_string userId, socketId) (rooms sv)\<rparr>"

text \<open>
  Membership as the HTTP routes test it (server/routes/tasks.js): a member entry with
  the user's id, or the owner.
\<close>

definition isMember :: "board_doc \<Rightarrow> string \<Rightarrow> bool" where
  "isMember b userId = (\<exists>m \<in> set (b_members b). m_id m = Some userId)"

definition isOwner :: "board_doc \<Rightarrow> string \<Rightarrow> bool" where
  "isOwner b userId = (b_ownerId b = userId)"

section \<open>The error taxonomy of the specification\<close>

text \<open>
  Modelled from the spec: the typed errors of a failed durable write, which the store
  does not have (its \<^verbatim>\<open>catch\<close> blocks take \<^verbatim>\<open>error: any\<close> and read the
  message). "Any durable-write failure raises a typed error (network, not_authorized,
  not_found)"; "a timed-out durable write is treated as a network failure". A rejected
  request with no response is \<open>network\<close>, a 401 or 403 response \<open>not_authorized\<close>,
  a 404 response \<open>not_found\<close>.
\<close>

datatype error_kind = network | not_authorized | not_found

definition kind_of :: "exn \<Rightarrow> error_kind option" where
  "kind_of e =
     (case e of
        AxiosError _ None \<Rightarrow> Some network
      | AxiosError _ (Some code) \<Rightarrow>
          if code = 401 \<or> code = 403 then Some not_authorized
          else if code = 404 then Some not_found
          else None
      | _ \<Rightarrow> None)"

section \<open>Concrete boards for the scenarios\<close>

definition mk_column :: "string \<Rightarrow> string \<Rightarrow> int \<Rightarrow> string list \<Rightarrow> column" where
  "mk_column cid title pos ids = \<lparr>col_id = cid, col_title = title, taskIds = ids, col_position = pos\<rparr>"

definition mk_board :: "string \<Rightarrow> column list \<Rightarrow> board" where
  "mk_board bid cols =
     \<lparr>board_id = bid, board_title = ''Sprint'', board_description = [], columns = cols,
      board_createdAt = ''2024-01-01T00:00:00.000Z'', board_updatedAt = ''2024-01-01T00:00:00.000Z'',
      isShared = False, isPublic = False, ownerId = ''u1'', members = [], taskCount = None,
      ownerName = None, ownerAvatar = None\<rparr>"

definition mk_task :: "string \<Rightarrow> string \<Rightarrow> string \<Rightarrow> obj" where
  "mk_task tid bid cid =
     [(''id'', VStr tid), (''title'', VStr ''A task''), (''boardId'', VStr bid),
      (''columnId'', VStr cid), (''status'', VStr cid)]"

definition mk_state :: "board list \<Rightarrow> (string \<times> obj) list \<Rightarrow> TaskState" where
  "mk_state bs ts =
     \<lparr>boards = bs, publicBoards = [], tasks = ts, currentBoardId = None, notifications = [],
      availableLabels = [], loading = False, error = None\<rparr>"

text \<open>Board B1 of the specification's scenario: todo = [t1, t2], done = [].\<close>

definition scenario_B1 :: TaskState where
  "scenario_B1 =
     mk_state
       [mk_board ''B1''
          [mk_column ''todo'' ''To Do'' 0 [''t1'', ''t2''],
           mk_column ''in-progress'' ''In Progress'' 1 [],
           mk_column ''done'' ''Done'' 2 []]]
       [(''t1'', mk_task ''t1'' ''B1'' ''todo''), (''t2'', mk_task ''t2'' ''B1'' ''todo'')]"

definition call :: "string \<Rightarrow> string \<Rightarrow> string \<Rightarrow> int \<Rightarrow> move_call" where
  "call t src dst i = \<lparr>mc_taskId = t, mc_source = src, mc_dest = dst, mc_index = i\<rparr>"

text \<open>The column lists of the first board, in column order.\<close>

definition column_lists :: "TaskState \<Rightarrow> (string \<times> string list) list" where
  "column_lists st =
     (case boards st of [] \<Rightarrow> [] | b # _ \<Rightarrow> map (\<lambda>c. (col_id c, taskIds c)) (columns b))"

section \<open>Vocabulary of the properties\<close>

text \<open>An id is fresh in a state when it is no key of the task map and stands in no column list.\<close>

definition fresh_id :: "string \<Rightarrow> TaskState \<Rightarrow> bool" where
  "fresh_id k st =
     (k \<notin> fst ` set (tasks st) \<and> (\<forall>b \<in> set (boards st). k \<notin> set (board_task_ids b)))"

text \<open>The boards with \<open>x\<close> put at the tail of column \<open>columnId\<close> of board \<open>boardId\<close>.\<close>

definition append_in_column :: "val \<Rightarrow> val \<Rightarrow> string \<Rightarrow> board list \<Rightarrow> board list" where
  "append_in_column boardId columnId x bs =
     map (\<lambda>b. if VStr (board_id b) \<noteq> boardId then b
              else b\<lparr>columns :=
                     map (\<lambda>c. if VStr (col_id c) = columnId then c\<lparr>taskIds := taskIds c @ [x]\<rparr> else c)
                         (columns b)\<rparr>)
         bs"

definition listed_anywhere :: "string \<Rightarrow> TaskState \<Rightarrow> bool" where
  "listed_anywhere k st = (\<exists>b \<in> set (boards st). k \<in> set (board_task_ids b))"

text \<open>The write scheduled by \<^verbatim>\<open>moveTask(t1, "todo", "done", 0)\<close> on board B1.\<close>

definition scenario_deferred :: move_deferred where
  "scenario_deferred =
     \<lparr>originalState = scenario_B1, md_taskId = ''t1'', md_status = ''done'', md_position = 0\<rparr>"

text \<open>What the task form passes to \<^verbatim>\<open>createTask\<close>, and the document the server answers with.\<close>

definition new_task_data :: obj where
  "new_task_data =
     [(''title'', VStr ''Write report''), (''description'', VStr []), (''priority'', VStr ''medium''),
      (''labels'', VArr []), (''dueDate'', VNull), (''columnId'', VStr ''todo''),
      (''boardId'', VStr ''B1'')]"

definition created_response :: obj where
  "created_response =
     [(''_id'', VStr ''t99''), (''title'', VStr ''Write report''), (''description'', VStr []),
      (''status'', VStr ''todo''), (''priority'', VStr ''medium''), (''dueDate'', VNull),
      (''labels'', VArr []), (''boardId'', VStr ''B1''), (''userId'', VStr ''u1''),
      (''position'', VNum 0)]"

definition network_error :: exn where
  "network_error = AxiosError ''Network Error'' None"

definition forbidden_error :: exn where
  "forbidden_error = AxiosError ''Request failed with status code 403'' (Some 403)"

text \<open>
  What stands at position \<open>i\<close> of column number \<open>ci\<close> of board number \<open>bi\<close>: the board's
  id, the column's id and the task id there.
\<close>

definition slot :: "TaskState \<Rightarrow> nat \<Rightarrow> nat \<Rightarrow> nat \<Rightarrow> (string \<times> string \<times> string) option" where
  "slot st bi ci i =
     (if bi < length (boards st) then
        (let b = boards st ! bi in
         if ci < length (columns b) then
           (let c = columns b ! ci in
            if i < length (taskIds c) then Some (board_id b, col_id c, taskIds c ! i) else None)
         else None)
      else None)"

text \<open>A slot with \<open>k\<close> exchanged for \<open>n\<close> when it lies in the named column of the named board.\<close>

definition swap_in_slot :: "val \<Rightarrow> val \<Rightarrow> string \<Rightarrow> string \<Rightarrow> string \<times> string \<times> string \<Rightarrow> string \<times> string \<times> string" where
  "swap_in_slot boardId columnId k n s =
     (case s of (bid, cid, x) \<Rightarrow>
        (bid, cid, if VStr bid = boardId \<and> VStr cid = columnId \<and> x = k then n else x))"

text \<open>A second task for the same column, created while the first is in flight.\<close>

definition second_task_data :: obj where
  "second_task_data =
     [(''title'', VStr ''Book room''), (''columnId'', VStr ''todo''), (''boardId'', VStr ''B1'')]"

text \<open>No effect of the list refetches a board.\<close>

definition no_refetch :: "effect list \<Rightarrow> bool" where
  "no_refetch effs = (\<forall>x \<in> set effs. case x of FetchTasks _ \<Rightarrow> False | FetchBoards \<Rightarrow> False | _ \<Rightarrow> True)"

definition title_update :: obj where
  "title_update = [(''title'', VStr ''Renamed'')]"

text \<open>The board document a task's \<^verbatim>\<open>boardId\<close> resolves to, if any.\<close>

definition board_of :: "server \<Rightarrow> task_doc \<Rightarrow> board_doc option" where
  "board_of sv t = find (\<lambda>b. b_id b = t_boardId t) (boards_coll sv)"

text \<open>The task_deadline notifications stored for a task and its user.\<close>

definition deadlines_of :: "server \<Rightarrow> task_doc \<Rightarrow> nat" where
  "deadlines_of sv t = deadline_count (notifications_coll sv) (t_userId t) (t_id t)"

text \<open>A server with one private board of alice, and tasks due within the day.\<close>

definition private_board :: board_doc where
  "private_board =
     \<lparr>b_id = ''b1'', b_name = ''Roadmap'', b_isPublic = False, b_ownerId = ''alice'', b_members = []\<rparr>"

definition due_task :: "string \<Rightarrow> string \<Rightarrow> task_doc" where
  "due_task tid bid =
     \<lparr>t_id = tid, t_title = ''Ship it'', t_status = ''todo'', t_dueDate = Some 50000000,
      t_boardId = bid, t_userId = ''alice''\<rparr>"

definition mk_server :: "task_doc list \<Rightarrow> board_doc list \<Rightarrow> server" where
  "mk_server ts bs =
     \<lparr>tasks_coll = ts, boards_coll = bs, notifications_coll = [], rooms = {}, emitted = [],
      console = []\<rparr>"

text \<open>A run in which the dedupe lookup for task k1 throws.\<close>

definition lookup_k1_fails :: "tick_op \<Rightarrow> exn option" where
  "lookup_k1_fails op =
     (if op = FindNotification ''k1'' then Some (MongoError ''connection lost'') else None)"

section \<open>moveTask: idempotence and the partition by column\<close>

lemma count_list_filter_neq:
  "count_list (filter (\<lambda>i. i \<noteq> t) xs) x = (if x = t then 0 else count_list xs x)"
  by (induction xs) auto

lemma count_list_take_drop:
  "count_list (take n xs) x + count_list (drop n xs) x = count_list xs x"
  by (metis append_take_drop_id count_list_append)

lemma count_list_splice_insert:
  "count_list (splice_insert xs k t) x = count_list xs x + (if x = t then 1 else 0)"
proof -
  have "count_list (take n xs @ t # drop n xs) x = count_list xs x + (if x = t then 1 else 0)" for n
    using count_list_take_drop [of n xs x] by auto
  then show ?thesis by (simp only: splice_insert_def Let_def)
qed

lemma filter_take_notin:
  "t \<notin> set xs \<Longrightarrow> filter (\<lambda>i. i \<noteq> t) (take n xs) = take n xs"
  by (auto simp: filter_id_conv dest: in_set_takeD)

lemma filter_drop_notin:
  "t \<notin> set xs \<Longrightarrow> filter (\<lambda>i. i \<noteq> t) (drop n xs) = drop n xs"
  by (auto simp: filter_id_conv dest: in_set_dropD)

lemma filter_splice_insert:
  "t \<notin> set xs \<Longrightarrow> filter (\<lambda>i. i \<noteq> t) (splice_insert xs k t) = xs"
  by (simp add: splice_insert_def Let_def filter_take_notin filter_drop_notin)

lemma move_column_idem:
  "move_column t src dst i (move_column t src dst i c) = move_column t src dst i c"
  by (simp add: move_column_def filter_splice_insert)

lemma move_boards_idem:
  "move_boards B t src dst i (move_boards B t src dst i bs) = move_boards B t src dst i bs"
  by (induction bs) (simp_all add: move_boards_def move_column_idem)

lemma find_move_boards:
  "find (\<lambda>b. VStr (board_id b) = B) (move_boards B' t src dst i bs) = None
     \<longleftrightarrow> find (\<lambda>b. VStr (board_id b) = B) bs = None"
  by (induction bs) (simp_all add: move_boards_def)

lemma get_prop_update:
  "get_prop (AList.update k v ob) k' = (if k' = k then v else get_prop ob k')"
  by (simp add: get_prop_def update_conv')



lemma col_id_move_column [simp]: "col_id (move_column t src dst i c) = col_id c"
  by (simp add: move_column_def)

lemma count_move_column_other:
  "x \<noteq> t \<Longrightarrow> count_list (taskIds (move_column t src dst i c)) x = count_list (taskIds c) x"
  by (simp add: move_column_def count_list_splice_insert count_list_filter_neq)

lemma count_move_column_same:
  "count_list (taskIds (move_column t src dst i c)) t =
     (if col_id c = dst then 1 else if col_id c = src then 0 else count_list (taskIds c) t)"
  by (simp add: move_column_def count_list_splice_insert count_list_filter_neq)

lemma occurrences_move_other:
  "x \<noteq> t \<Longrightarrow>
   occurrences (b\<lparr>columns := map (move_column t src dst i) (columns b)\<rparr>) x = occurrences b x"
  by (simp add: occurrences_def comp_def count_move_column_other)

lemma sum_count_moved:
  "distinct (map col_id cs) \<Longrightarrow>
   \<forall>c \<in> set cs. t \<in> set (taskIds c) \<longrightarrow> col_id c = src \<Longrightarrow>
   sum_list (map (\<lambda>c. count_list (taskIds (move_column t src dst i c)) t) cs) =
     (if dst \<in> set (map col_id cs) then 1 else 0)"
proof (induction cs)
  case Nil
  then show ?case by simp
next
  case (Cons c cs)
  have here: "count_list (taskIds (move_column t src dst i c)) t = (if col_id c = dst then 1 else 0)"
    using Cons.prems(2) by (auto simp: count_move_column_same)
  have rest: "sum_list (map (\<lambda>c. count_list (taskIds (move_column t src dst i c)) t) cs) =
     (if dst \<in> set (map col_id cs) then 1 else 0)"
    using Cons by simp
  show ?case
  proof (cases "col_id c = dst")
    case True
    then have "dst \<notin> set (map col_id cs)" using Cons.prems(1) by auto
    with True here rest show ?thesis by simp
  next
    case False
    with here rest show ?thesis by simp
  qed
qed

lemma occurrences_move_same:
  assumes "distinct (map col_id (columns b))"
    and "dst \<in> set (map col_id (columns b))"
    and "\<forall>c \<in> set (columns b). t \<in> set (taskIds c) \<longrightarrow> col_id c = src"
  shows "occurrences (b\<lparr>columns := map (move_column t src dst i) (columns b)\<rparr>) t = 1"
  using sum_count_moved [OF assms(1) assms(3), of dst i] assms(2)
  by (simp add: occurrences_def comp_def)

lemma listed_iff_occurs: "tid \<in> set (board_task_ids b) \<longleftrightarrow> 0 < occurrences b tid"
proof -
  have c: "x \<in> set xs \<longleftrightarrow> 0 < count_list xs x" for xs :: "string list" and x
    using count_list_0_iff [of xs x] by auto
  have "tid \<in> set (concat (map taskIds cs)) \<longleftrightarrow> 0 < sum_list (map (\<lambda>c. count_list (taskIds c) tid) cs)" for cs :: "column list"
    by (induction cs) (simp_all add: c)
  then show ?thesis by (simp add: board_task_ids_def occurrences_def)
qed


lemma after_move_cases:
  obtains (unchanged) "after_move st t src dst i = st"
  | (moved) task where "map_of (tasks st) t = Some task"
      and "after_move st t src dst i =
             st\<lparr>tasks := AList.update t
                        (AList.update ''status'' (VStr dst) (AList.update ''columnId'' (VStr dst) task))
                        (tasks st),
                boards := move_boards (get_prop task ''boardId'') t src dst i (boards st)\<rparr>"
proof (cases "map_of (tasks st) t")
  case None
  then have "after_move st t src dst i = st"
    by (simp add: after_move_def moveTask_def)
  then show ?thesis by (rule unchanged)
next
  case (Some task)
  show ?thesis
  proof (cases "find (\<lambda>b. VStr (board_id b) = get_prop task ''boardId'') (boards st)")
    case None
    with Some have "after_move st t src dst i = st"
      by (simp add: after_move_def moveTask_def)
    then show ?thesis by (rule unchanged)
  next
    case (Some b)
    with \<open>map_of (tasks st) t = Some task\<close> show ?thesis
      by (intro moved [of task]) (simp_all add: after_move_def moveTask_def)
  qed
qed

lemma set_update_subset: "set (AList.update k v al) \<subseteq> insert (k, v) (set al)"
  by (induction al) auto

lemma partitioned_after_move:
  assumes inv: "partitioned st" and dc: "distinct_columns st" and nc: "names_columns st c"
  shows "partitioned (apply_call st c)"
proof -
  define t src dst i where "t = mc_taskId c" and "src = mc_source c" and "dst = mc_dest c"
    and "i = mc_index c"
  have ac: "apply_call st c = after_move st t src dst i"
    by (simp add: apply_call_def t_def src_def dst_def i_def)
  show ?thesis
  proof (cases rule: after_move_cases [where st = st and t = t and src = src and dst = dst and i = i])
    case unchanged
    with ac inv show ?thesis by simp
  next
    case (moved task)
    define B where "B = get_prop task ''boardId''"
    define task' where
      "task' = AList.update ''status'' (VStr dst) (AList.update ''columnId'' (VStr dst) task)"
    define f :: "board \<Rightarrow> board" where "f = (\<lambda>b. if VStr (board_id b) \<noteq> B then b
                         else b\<lparr>columns := map (move_column t src dst i) (columns b)\<rparr>)"
    have B': "get_prop task' ''boardId'' = B"
      by (simp add: task'_def B_def get_prop_update)
    have tasks': "tasks (apply_call st c) = AList.update t task' (tasks st)"
      and boards': "boards (apply_call st c) = map f (boards st)"
      using moved(2) by (simp_all add: ac task'_def B_def f_def move_boards_def)
    have old_or_new: "(tid, tk) \<in> set (tasks st) \<or> (tid, tk) = (t, task')"
      if "(tid, tk) \<in> set (tasks (apply_call st c))" for tid tk
      using that set_update_subset [of t task' "tasks st"] unfolding tasks' by blast
    have goal: "(\<forall>tid \<in> set (board_task_ids (f b)). occurrences (f b) tid = 1) \<and>
                (\<forall>(tid, tk) \<in> set (tasks (apply_call st c)).
                    VStr (board_id (f b)) = get_prop tk ''boardId'' \<longrightarrow> occurrences (f b) tid = 1)"
      if b: "b \<in> set (boards st)" for b
    proof (cases "VStr (board_id b) = B")
      case False
      then have fb: "f b = b" by (simp add: f_def)
      from inv b have listed: "\<forall>tid \<in> set (board_task_ids b). occurrences b tid = 1"
        and mapped: "\<And>tid tk. (tid, tk) \<in> set (tasks st) \<Longrightarrow>
               VStr (board_id b) = get_prop tk ''boardId'' \<Longrightarrow> occurrences b tid = 1"
        by (auto simp: partitioned_def)
      show ?thesis
        unfolding fb using listed mapped old_or_new False B' by fastforce
    next
      case True
      then have fb: "f b = b\<lparr>columns := map (move_column t src dst i) (columns b)\<rparr>"
        by (simp add: f_def)
      from nc moved(1) b True
      have dst_in: "dst \<in> set (map col_id (columns b))"
        and src_ok: "\<forall>col \<in> set (columns b). t \<in> set (taskIds col) \<longrightarrow> col_id col = src"
        by (auto simp: names_columns_def t_def src_def dst_def B_def)
      from dc b have dist: "distinct (map col_id (columns b))"
        by (simp add: distinct_columns_def)
      have one: "occurrences (f b) t = 1"
        unfolding fb by (rule occurrences_move_same [OF dist dst_in src_ok])
      have other: "occurrences (f b) x = occurrences b x" if "x \<noteq> t" for x
        unfolding fb using that by (rule occurrences_move_other)
      from inv b have listed: "\<And>tid. tid \<in> set (board_task_ids b) \<Longrightarrow> occurrences b tid = 1"
        and mapped: "\<And>tid tk. (tid, tk) \<in> set (tasks st) \<Longrightarrow>
               VStr (board_id b) = get_prop tk ''boardId'' \<Longrightarrow> occurrences b tid = 1"
        by (auto simp: partitioned_def)
      have id_fb: "board_id (f b) = board_id b" by (simp add: fb)
      have c1: "occurrences (f b) tid = 1" if "tid \<in> set (board_task_ids (f b))" for tid
      proof (cases "tid = t")
        case True
        with one show ?thesis by simp
      next
        case False
        from that have "0 < occurrences (f b) tid" by (simp add: listed_iff_occurs)
        with False have "0 < occurrences b tid" by (simp add: other)
        then have "tid \<in> set (board_task_ids b)" by (simp add: listed_iff_occurs)
        with False show ?thesis by (simp add: other listed)
      qed
      have c2: "occurrences (f b) tid = 1"
        if "(tid, tk) \<in> set (tasks (apply_call st c))"
          and "VStr (board_id (f b)) = get_prop tk ''boardId''" for tid tk
      proof (cases "tid = t")
        case True
        with one show ?thesis by simp
      next
        case False
        with old_or_new [OF that(1)] have "(tid, tk) \<in> set (tasks st)" by simp
        with that(2) have "occurrences b tid = 1" by (simp add: id_fb mapped)
        with False show ?thesis by (simp add: other)
      qed
      from c1 c2 show ?thesis by blast
    qed
    show ?thesis
      unfolding partitioned_def boards' using goal by simp
  qed
qed

lemma distinct_columns_after_move:
  assumes "distinct_columns st"
  shows "distinct_columns (apply_call st c)"
proof (cases rule: after_move_cases [where st = st and t = "mc_taskId c" and src = "mc_source c"
      and dst = "mc_dest c" and i = "mc_index c"])
  case unchanged
  with assms show ?thesis by (simp add: apply_call_def)
next
  case (moved task)
  with assms show ?thesis
    by (auto simp: apply_call_def distinct_columns_def move_boards_def comp_def)
qed

lemma moveTask_sets_columnId:
  assumes "moveTask st t src dst i = Inr (st', Some d)"
  shows "\<exists>task. map_of (tasks st') t = Some task \<and> get_prop task ''columnId'' = VStr dst"
  using assms
  by (auto simp: moveTask_def update_conv' get_prop_update split: option.splits if_splits)

lemma run_moves_Cons: "run_moves st (c # cs) = run_moves (apply_call st c) cs"
  by (simp add: run_moves_def)

lemma partitioned_run_moves:
  "partitioned st \<Longrightarrow> distinct_columns st \<Longrightarrow> calls_name_columns st cs \<Longrightarrow>
   partitioned (run_moves st (take n cs))"
proof (induction cs arbitrary: st n)
  case Nil
  then show ?case by (simp add: run_moves_def)
next
  case (Cons c cs)
  show ?case
  proof (cases n)
    case 0
    with Cons.prems show ?thesis by (simp add: run_moves_def)
  next
    case (Suc m)
    from Cons.prems have "partitioned (apply_call st c)" "distinct_columns (apply_call st c)"
      "calls_name_columns (apply_call st c) cs"
      by (simp_all add: partitioned_after_move distinct_columns_after_move)
    then have "partitioned (run_moves (apply_call st c) (take m cs))"
      by (rule Cons.IH)
    with Suc show ?thesis by (simp add: run_moves_Cons)
  qed
qed

text \<open>
  Claim C10. Repeating \<^verbatim>\<open>moveTask\<close> with the same arguments changes nothing more: the
  second call leaves the whole state of the first (the task map, every board, every
  column list and its order), whatever the arguments and whether the first call threw,
  returned early or moved the task.
\<close>

theorem moveTask_idempotent:
  "after_move (after_move st t src dst i) t src dst i = after_move st t src dst i"
proof (cases "map_of (tasks st) t")
  case None
  then show ?thesis by (simp add: after_move_def moveTask_def)
next
  case (Some task)
  show ?thesis
  proof (cases "find (\<lambda>b. VStr (board_id b) = get_prop task ''boardId'') (boards st)")
    case None
    with Some show ?thesis by (simp add: after_move_def moveTask_def)
  next
    case (Some b)
    let ?task' = "AList.update ''status'' (VStr dst) (AList.update ''columnId'' (VStr dst) task)"
    let ?B = "get_prop task ''boardId''"
    let ?st' = "st\<lparr>tasks := AList.update t ?task' (tasks st),
                    boards := move_boards ?B t src dst i (boards st)\<rparr>"
    have once: "after_move st t src dst i = ?st'"
      using Some \<open>map_of (tasks st) t = Some task\<close> by (simp add: after_move_def moveTask_def)
    have look: "map_of (tasks ?st') t = Some ?task'"
      by (simp add: update_conv')
    have B: "get_prop ?task' ''boardId'' = ?B"
      by (simp add: get_prop_update)
    have fnd: "find (\<lambda>b. VStr (board_id b) = ?B) (boards ?st') \<noteq> None"
      using Some by (simp add: find_move_boards)
    have "map_of (AList.update ''columnId'' (VStr dst) task) ''columnId'' = Some (VStr dst)"
      by (simp add: update_conv')
    then have "map_of ?task' ''columnId'' = Some (VStr dst)"
      by (simp add: update_conv')
    then have again: "AList.update ''status'' (VStr dst) (AList.update ''columnId'' (VStr dst) ?task') = ?task'"
      by (simp add: update_triv)
    obtain b' where fnd': "find (\<lambda>b. VStr (board_id b) = ?B) (boards ?st') = Some b'"
      using fnd by blast
    have "moveTask ?st' t src dst i =
            Inr (?st'\<lparr>tasks := AList.update t ?task' (tasks ?st'),
                       boards := move_boards ?B t src dst i (boards ?st')\<rparr>,
                 Some \<lparr>originalState = ?st', md_taskId = t, md_status = dst, md_position = i\<rparr>)"
      unfolding moveTask_def look option.case B fnd' again ..
    then have "after_move ?st' t src dst i = ?st'"
      by (simp add: after_move_def move_boards_idem)
    with once show ?thesis by simp
  qed
qed


text \<open>
  Claim C1, as stated, fails: \<^verbatim>\<open>moveTask\<close> trusts the column ids it is given. On
  board B1 (todo = [t1, t2]) the call \<^verbatim>\<open>moveTask(t1, "in-progress", "done", 0)\<close> filters
  the empty in-progress list, inserts t1 into done and leaves todo alone: t1 then
  stands in two column lists. The call \<^verbatim>\<open>moveTask(t1, "todo", "archive", 0)\<close>, to a
  column the board does not have, takes t1 out of todo and puts it nowhere.
\<close>

theorem moveTask_wrong_source_duplicates:
  "partitioned scenario_B1 \<and>
   column_lists (run_moves scenario_B1 [call ''t1'' ''in-progress'' ''done'' 0]) =
     [(''todo'', [''t1'', ''t2'']), (''in-progress'', []), (''done'', [''t1''])] \<and>
   \<not> partitioned (run_moves scenario_B1 [call ''t1'' ''in-progress'' ''done'' 0]) \<and>
   column_lists (run_moves scenario_B1 [call ''t1'' ''todo'' ''archive'' 0]) =
     [(''todo'', [''t2'']), (''in-progress'', []), (''done'', [])] \<and>
   \<not> partitioned (run_moves scenario_B1 [call ''t1'' ''todo'' ''archive'' 0])"
  by code_simp

text \<open>
  Claim C1, amended. From a state in which every task id stands exactly once in its
  board and no two columns of a board share an id, a run of \<^verbatim>\<open>moveTask\<close> calls, each
  naming as source the column that lists the task and as destination a column of the
  task's board, keeps every task id exactly once in its board: in the final state and in
  every state between two calls. Each call is one transition of the state (one
  \<^verbatim>\<open>set\<close>), and in that same transition the moved task's \<^verbatim>\<open>columnId\<close> becomes the
  destination.
\<close>

theorem moveTask_keeps_partition:
  assumes "partitioned st" and "distinct_columns st" and "calls_name_columns st cs"
  shows "(\<forall>n \<le> length cs. partitioned (run_moves st (take n cs))) \<and>
         (\<forall>k < length cs. \<forall>st' d.
            moveTask (run_moves st (take k cs)) (mc_taskId (cs ! k)) (mc_source (cs ! k))
                (mc_dest (cs ! k)) (mc_index (cs ! k)) = Inr (st', Some d) \<longrightarrow>
            (\<exists>task. map_of (tasks st') (mc_taskId (cs ! k)) = Some task \<and>
                    get_prop task ''columnId'' = VStr (mc_dest (cs ! k))))"
  using assms by (auto simp: partitioned_run_moves dest: moveTask_sets_columnId)

text \<open>
  The specification's scenario, continued: t1 to done, t2 to done in front of it, t1 back
  to todo with an index past the end.
\<close>

theorem moveTask_keeps_partition_witness:
  "partitioned scenario_B1 \<and> distinct_columns scenario_B1 \<and>
   calls_name_columns scenario_B1
     [call ''t1'' ''todo'' ''done'' 0, call ''t2'' ''todo'' ''done'' 0, call ''t1'' ''done'' ''todo'' 5] \<and>
   partitioned (run_moves scenario_B1
     [call ''t1'' ''todo'' ''done'' 0, call ''t2'' ''todo'' ''done'' 0, call ''t1'' ''done'' ''todo'' 5]) \<and>
   column_lists (run_moves scenario_B1
     [call ''t1'' ''todo'' ''done'' 0, call ''t2'' ''todo'' ''done'' 0, call ''t1'' ''done'' ''todo'' 5]) =
     [(''todo'', [''t1'']), (''in-progress'', []), (''done'', [''t2''])]"
proof -
  let ?cs = "[call ''t1'' ''todo'' ''done'' 0, call ''t2'' ''todo'' ''done'' 0,
              call ''t1'' ''done'' ''todo'' 5]"
  have h1: "partitioned scenario_B1" by code_simp
  have h2: "distinct_columns scenario_B1" by code_simp
  have h3: "calls_name_columns scenario_B1 ?cs" by code_simp
  have "\<forall>n \<le> length ?cs. partitioned (run_moves scenario_B1 (take n ?cs))"
    using moveTask_keeps_partition [OF h1 h2 h3] by (rule conjunct1)
  then have "partitioned (run_moves scenario_B1 (take (length ?cs) ?cs))" by blast
  then have h4: "partitioned (run_moves scenario_B1 ?cs)" by simp
  have h5: "column_lists (run_moves scenario_B1 ?cs) =
     [(''todo'', [''t1'']), (''in-progress'', []), (''done'', [''t2''])]" by code_simp
  from h1 h2 h3 h4 h5 show ?thesis by blast
qed

section \<open>createTask, updateTask, deleteTask: rollback, failures, the id swap\<close>

lemma delete_fresh_update: "k \<notin> fst ` set al \<Longrightarrow> AList.delete k (AList.update k v al) = al"
  by (simp add: delete_update_same)

lemma filter_notin_id: "k \<notin> set xs \<Longrightarrow> filter (\<lambda>i. i \<noteq> k) xs = xs"
  by (induction xs) auto

lemma rollback_columns:
  assumes "\<forall>c \<in> set cs. k \<notin> set (taskIds c)"
  shows "map (\<lambda>c. c\<lparr>taskIds := filter (\<lambda>i. i \<noteq> k) (taskIds c)\<rparr>)
           (map (\<lambda>c. if VStr (col_id c) = cid then c\<lparr>taskIds := taskIds c @ [k]\<rparr> else c) cs) = cs"
  using assms by (induction cs) (simp_all add: filter_notin_id del: map_map)

lemma in_board_task_ids: "k \<in> set (board_task_ids b) \<longleftrightarrow> (\<exists>c \<in> set (columns b). k \<in> set (taskIds c))"
  by (auto simp: board_task_ids_def)

lemma rollback_boards:
  assumes "\<forall>b \<in> set bs. k \<notin> set (board_task_ids b)"
  shows "map (\<lambda>b. if VStr (board_id b) \<noteq> bid then b
                  else b\<lparr>columns := map (\<lambda>c. c\<lparr>taskIds := filter (\<lambda>i. i \<noteq> k) (taskIds c)\<rparr>) (columns b)\<rparr>)
           (map (\<lambda>b. if VStr (board_id b) \<noteq> bid then b
                     else b\<lparr>columns := map (\<lambda>c. if VStr (col_id c) = cid
                                                then c\<lparr>taskIds := taskIds c @ [k]\<rparr> else c) (columns b)\<rparr>)
                bs) = bs"
  using assms
proof (induction bs)
  case Nil
  then show ?case by simp
next
  case (Cons b bs)
  then have "\<forall>c \<in> set (columns b). k \<notin> set (taskIds c)"
    by (simp add: in_board_task_ids)
  then have "map (\<lambda>c. c\<lparr>taskIds := filter (\<lambda>i. i \<noteq> k) (taskIds c)\<rparr>)
           (map (\<lambda>c. if VStr (col_id c) = cid then c\<lparr>taskIds := taskIds c @ [k]\<rparr> else c) (columns b))
         = columns b"
    by (rule rollback_columns)
  with Cons show ?case by (simp del: map_map)
qed

lemma createTask_rollback_optimistic:
  assumes "fresh_id k st"
  shows "projection (createTask_rollback data k e (createTask_optimistic data k c u st)) = projection st"
  using assms
  by (simp add: projection_def createTask_rollback_def createTask_optimistic_def fresh_id_def
      delete_fresh_update rollback_boards del: map_map)

lemma moveTask_snapshot:
  assumes "moveTask st t src dst i = Inr (st', Some d)"
  shows "originalState d = st"
  using assms by (auto simp: moveTask_def split: option.splits if_splits)

lemma projection_moveTask_revert: "projection (moveTask_revert d e cur) = projection (originalState d)"
  by (simp add: projection_def moveTask_revert_def)

lemma createTask_replace_projection:
  "projection cur = projection cur' \<Longrightarrow>
   projection (createTask_replace k nt cur) = projection (createTask_replace k nt cur')"
  by (simp add: projection_def createTask_replace_def)

lemma createTask_rollback_projection:
  "projection cur = projection cur' \<Longrightarrow>
   projection (createTask_rollback data k e cur) = projection (createTask_rollback data k e' cur')"
  by (simp add: projection_def createTask_rollback_def)


text \<open>
  Claim C2, as stated for every projection state, fails for \<^verbatim>\<open>createTask\<close> in two ways.
  The temporary id is \<^verbatim>\<open>`temp-${Date.now()}`\<close>, and the rollback removes every task and
  list entry with that id: when a first \<^verbatim>\<open>createTask\<close> is still in flight and a second
  one starts in the same millisecond and fails, its rollback also removes the first
  call's optimistic task. And the rollback removes the temporary id from the state
  current when the request fails, it restores no snapshot: with a fresh temporary id and
  a \<^verbatim>\<open>moveTask\<close> of t1 while the request is awaited, the rejected create leaves
  todo = [t2], done = [t1], not the projection before the call.
\<close>

theorem createTask_rollback_not_exact:
  "column_lists (createTask_optimistic new_task_data (tempId_of 123) ''c'' ''u'' scenario_B1) =
     [(''todo'', [''t1'', ''t2'', ''temp-123'']), (''in-progress'', []), (''done'', [])] \<and>
   column_lists
     (fst (createTask 123 ''c'' ''u'' new_task_data (Some ''tok'') (Rejected network_error)
        (createTask_optimistic new_task_data (tempId_of 123) ''c'' ''u'' scenario_B1))) =
     [(''todo'', [''t1'', ''t2'']), (''in-progress'', []), (''done'', [])] \<and>
   projection
     (fst (createTask 123 ''c'' ''u'' new_task_data (Some ''tok'') (Rejected network_error)
        (createTask_optimistic new_task_data (tempId_of 123) ''c'' ''u'' scenario_B1))) \<noteq>
   projection (createTask_optimistic new_task_data (tempId_of 123) ''c'' ''u'' scenario_B1) \<and>
   fresh_id (tempId_of 123) scenario_B1 \<and>
   column_lists
     (fst (createTask_settle new_task_data (tempId_of 123) (Some ''tok'') (Rejected network_error)
        (after_move (createTask_optimistic new_task_data (tempId_of 123) ''c'' ''u'' scenario_B1)
           ''t1'' ''todo'' ''done'' 0))) =
     [(''todo'', [''t2'']), (''in-progress'', []), (''done'', [''t1''])] \<and>
   projection
     (fst (createTask_settle new_task_data (tempId_of 123) (Some ''tok'') (Rejected network_error)
        (after_move (createTask_optimistic new_task_data (tempId_of 123) ''c'' ''u'' scenario_B1)
           ''t1'' ''todo'' ''done'' 0))) \<noteq>
   projection scenario_B1"
  by code_simp

text \<open>
  Claim C2, amended. When the temporary id is fresh in the state (no key of the task map,
  in no column list) and nothing else has changed the projection between the optimistic
  update and the failure, a \<^verbatim>\<open>createTask\<close> whose write fails (no token, or a rejected
  request) leaves the projection (task map and boards, every column list in its order)
  equal to the one before the call. A \<^verbatim>\<open>moveTask\<close> whose deferred write fails restores
  the whole snapshot taken at the call, in whatever state the failure finds the store.
\<close>

theorem rollback_restores_projection:
  "(fresh_id (tempId_of now) st \<and>
    projection cur =
      projection (createTask_optimistic data (tempId_of now) createdAt updatedAt st) \<and>
    (no_token token \<or> result = Rejected e) \<longrightarrow>
      projection (fst (createTask_settle data (tempId_of now) token result cur)) = projection st)
   \<and>
   (fresh_id (tempId_of now) st \<and> (no_token token \<or> result = Rejected e) \<longrightarrow>
      projection (fst (createTask now createdAt updatedAt data token result st)) = projection st)
   \<and>
   (moveTask st t src dst i = Inr (st', Some d) \<and> (no_token token' \<or> result' = Rejected e') \<longrightarrow>
      projection (fst (moveTask_deferred d token' result' st')) = projection st \<and>
      projection (fst (moveTask_deferred d token' result' cur')) = projection st)"
proof -
  let ?k = "tempId_of now"
  let ?opt = "createTask_optimistic data ?k createdAt updatedAt st"
  have general: "projection (fst (createTask_settle data ?k token result x)) = projection st"
    if f: "fresh_id ?k st" and p: "projection x = projection ?opt"
      and fail: "no_token token \<or> result = Rejected e" for x
  proof -
    define e' where "e' = (if no_token token then Error ''No token found'' else e)"
    from fail have "fst (createTask_settle data ?k token result x) = createTask_rollback data ?k e' x"
      by (auto simp: createTask_settle_def e'_def)
    then have "projection (fst (createTask_settle data ?k token result x)) =
        projection (createTask_rollback data ?k e' ?opt)"
      using createTask_rollback_projection [OF p, of data ?k e' e'] by simp
    also have "\<dots> = projection st"
      using f by (rule createTask_rollback_optimistic)
    finally show ?thesis .
  qed
  have composite: "projection (fst (createTask now createdAt updatedAt data token result st)) = projection st"
    if f: "fresh_id ?k st" and fail: "no_token token \<or> result = Rejected e"
    unfolding createTask_def using f _ fail by (rule general) simp
  have move: "projection (fst (moveTask_deferred d token' result' x)) = projection st"
    if m: "moveTask st t src dst i = Inr (st', Some d)"
      and fail: "no_token token' \<or> result' = Rejected e'" for x
  proof -
    from m have o: "originalState d = st" by (rule moveTask_snapshot)
    from fail have "fst (moveTask_deferred d token' result' x) =
        moveTask_revert d (if no_token token' then Error ''No token'' else e') x"
      by (auto simp: moveTask_deferred_def)
    with o show ?thesis by (simp add: projection_moveTask_revert)
  qed
  from general composite move show ?thesis by blast
qed

text \<open>
  On board B1: a failed create whose request was awaited while only the \<^verbatim>\<open>loading\<close> flag
  changed, the same with nothing in between, and the specification's scenario of a
  failed move.
\<close>

theorem rollback_restores_projection_witness:
  "fresh_id (tempId_of 123) scenario_B1 \<and>
   projection ((createTask_optimistic new_task_data (tempId_of 123) ''c'' ''u'' scenario_B1)\<lparr>loading := True\<rparr>) =
     projection (createTask_optimistic new_task_data (tempId_of 123) ''c'' ''u'' scenario_B1) \<and>
   projection (fst (createTask_settle new_task_data (tempId_of 123) (Some ''tok'') (Rejected network_error)
                      ((createTask_optimistic new_task_data (tempId_of 123) ''c'' ''u'' scenario_B1)
                         \<lparr>loading := True\<rparr>))) = projection scenario_B1 \<and>
   projection (fst (createTask 123 ''c'' ''u'' new_task_data (Some ''tok'')
                      (Rejected network_error) scenario_B1)) = projection scenario_B1 \<and>
   moveTask scenario_B1 ''t1'' ''todo'' ''done'' 0 =
     Inr (after_move scenario_B1 ''t1'' ''todo'' ''done'' 0, Some scenario_deferred) \<and>
   column_lists (after_move scenario_B1 ''t1'' ''todo'' ''done'' 0) =
     [(''todo'', [''t2'']), (''in-progress'', []), (''done'', [''t1''])] \<and>
   projection (fst (moveTask_deferred scenario_deferred (Some ''tok'') (Rejected network_error)
                      (after_move scenario_B1 ''t1'' ''todo'' ''done'' 0))) = projection scenario_B1 \<and>
   column_lists (fst (moveTask_deferred scenario_deferred (Some ''tok'') (Rejected network_error)
                      (after_move scenario_B1 ''t1'' ''todo'' ''done'' 0))) =
     [(''todo'', [''t1'', ''t2'']), (''in-progress'', []), (''done'', [])]"
proof -
  let ?opt = "createTask_optimistic new_task_data (tempId_of 123) ''c'' ''u'' scenario_B1"
  let ?mv = "after_move scenario_B1 ''t1'' ''todo'' ''done'' 0"
  have f: "fresh_id (tempId_of 123) scenario_B1" by code_simp
  have p: "projection (?opt\<lparr>loading := True\<rparr>) = projection ?opt" by (simp add: projection_def)
  have m: "moveTask scenario_B1 ''t1'' ''todo'' ''done'' 0 = Inr (?mv, Some scenario_deferred)"
    by code_simp
  have c1: "column_lists ?mv = [(''todo'', [''t2'']), (''in-progress'', []), (''done'', [''t1''])]"
    by code_simp
  have c2: "column_lists (fst (moveTask_deferred scenario_deferred (Some ''tok'') (Rejected network_error) ?mv)) =
     [(''todo'', [''t1'', ''t2'']), (''in-progress'', []), (''done'', [])]" by code_simp
  note r = rollback_restores_projection [where now = 123 and st = scenario_B1
      and cur = "?opt\<lparr>loading := True\<rparr>" and data = new_task_data and createdAt = "''c''"
      and updatedAt = "''u''" and token = "Some ''tok''" and result = "Rejected network_error"
      and e = network_error and t = "''t1''" and src = "''todo''" and dst = "''done''" and i = 0
      and st' = ?mv and d = scenario_deferred and token' = "Some ''tok''"
      and result' = "Rejected network_error" and e' = network_error and cur' = ?mv]
  from r f p have p0: "projection (fst (createTask_settle new_task_data (tempId_of 123) (Some ''tok'')
      (Rejected network_error) (?opt\<lparr>loading := True\<rparr>))) = projection scenario_B1" by blast
  from r f have p1: "projection (fst (createTask 123 ''c'' ''u'' new_task_data (Some ''tok'')
                      (Rejected network_error) scenario_B1)) = projection scenario_B1" by blast
  from r m have p2: "projection (fst (moveTask_deferred scenario_deferred (Some ''tok'')
      (Rejected network_error) ?mv)) = projection scenario_B1" by blast
  from f p p0 p1 m c1 p2 c2 show ?thesis by blast
qed


text \<open>
  Claim C3, as stated, fails: the store has no typed errors and one \<^verbatim>\<open>catch\<close> block per
  action. A move whose write is answered with 403 (not_authorized in the specification's
  taxonomy) is rolled back like any other failure, and nothing is refetched.
\<close>

theorem forbidden_move_is_rolled_back:
  "kind_of forbidden_error = Some not_authorized \<and>
   moveTask scenario_B1 ''t1'' ''todo'' ''done'' 0 =
     Inr (after_move scenario_B1 ''t1'' ''todo'' ''done'' 0, Some scenario_deferred) \<and>
   column_lists (after_move scenario_B1 ''t1'' ''todo'' ''done'' 0) =
     [(''todo'', [''t2'']), (''in-progress'', []), (''done'', [''t1''])] \<and>
   column_lists (fst (moveTask_deferred scenario_deferred (Some ''tok'') (Rejected forbidden_error)
                        (after_move scenario_B1 ''t1'' ''todo'' ''done'' 0))) =
     [(''todo'', [''t1'', ''t2'']), (''in-progress'', []), (''done'', [])] \<and>
   projection (fst (moveTask_deferred scenario_deferred (Some ''tok'') (Rejected forbidden_error)
                        (after_move scenario_B1 ''t1'' ''todo'' ''done'' 0))) = projection scenario_B1 \<and>
   snd (moveTask_deferred scenario_deferred (Some ''tok'') (Rejected forbidden_error)
                        (after_move scenario_B1 ''t1'' ''todo'' ''done'' 0)) =
     [ApiUpdateTask ''t1'' [(''status'', VStr ''done''), (''position'', VNum 0)],
      ToastError ''Failed to save task move'']"
  by code_simp

lemma createTask_rollback_removes:
  "map_of (tasks (createTask_rollback data k e st)) k = None"
  by (simp add: createTask_rollback_def delete_conv')

text \<open>
  Claim C3, amended. A failed durable write reaches the store as an exception of which
  only the message is read. Whatever the exception, \<^verbatim>\<open>createTask\<close> removes the
  temporary task, \<^verbatim>\<open>moveTask\<close> restores its snapshot, the message is stored in
  \<^verbatim>\<open>error\<close> and a toast is shown; no failure refetches a board.
\<close>

theorem every_failure_rolls_back:
  assumes "\<not> no_token token"
  shows "createTask_settle data tempId token (Rejected e) st =
           (createTask_rollback data tempId e st,
            [createTask_request data, ToastError (toast_message e)], None) \<and>
         map_of (tasks (createTask_rollback data tempId e st)) tempId = None \<and>
         error (createTask_rollback data tempId e st) = Some (message e) \<and>
         moveTask_deferred d token (Rejected e) cur =
           (moveTask_revert d e cur, [moveTask_write d, ToastError ''Failed to save task move'']) \<and>
         projection (moveTask_revert d e cur) = projection (originalState d) \<and>
         error (moveTask_revert d e cur) = Some (message e) \<and>
         no_refetch (fst (snd (createTask_settle data tempId token (Rejected e) st))) \<and>
         no_refetch (snd (moveTask_deferred d token (Rejected e) cur))"
  using assms
  by (simp add: createTask_settle_def moveTask_deferred_def createTask_rollback_removes
      projection_moveTask_revert no_refetch_def createTask_request_def moveTask_write_def)
     (simp add: createTask_rollback_def moveTask_revert_def)

text \<open>
  The 403 answer to the move of the scenario.
\<close>

theorem every_failure_rolls_back_witness:
  "\<not> no_token (Some ''tok'') \<and> kind_of forbidden_error = Some not_authorized \<and>
   moveTask_deferred scenario_deferred (Some ''tok'') (Rejected forbidden_error)
       (after_move scenario_B1 ''t1'' ''todo'' ''done'' 0) =
     (moveTask_revert scenario_deferred forbidden_error (after_move scenario_B1 ''t1'' ''todo'' ''done'' 0),
      [moveTask_write scenario_deferred, ToastError ''Failed to save task move'']) \<and>
   projection (moveTask_revert scenario_deferred forbidden_error
                 (after_move scenario_B1 ''t1'' ''todo'' ''done'' 0)) = projection scenario_B1"
proof -
  have t: "\<not> no_token (Some ''tok'')" by code_simp
  have k: "kind_of forbidden_error = Some not_authorized" by code_simp
  have o: "originalState scenario_deferred = scenario_B1" by (simp add: scenario_deferred_def)
  from every_failure_rolls_back [OF t, of new_task_data "tempId_of 123" forbidden_error scenario_B1
      scenario_deferred "after_move scenario_B1 ''t1'' ''todo'' ''done'' 0"] t k o
  show ?thesis by simp
qed


lemma replace_notin:
  "k \<notin> set xs \<Longrightarrow> map (\<lambda>i. if i = k then n else i) xs = xs"
  by (induction xs) auto

lemma get_prop_newTask_of:
  "get_prop (newTask_of r) ''boardId'' = get_prop r ''boardId''"
  "get_prop (newTask_of r) ''columnId'' = get_prop r ''status''"
  by (simp_all add: newTask_of_def get_prop_update)

lemma replace_after_append_boards:
  assumes "\<forall>b \<in> set bs. k \<notin> set (board_task_ids b)"
  shows "map (\<lambda>b. if VStr (board_id b) \<noteq> B then b
                  else b\<lparr>columns :=
                         map (\<lambda>c. if VStr (col_id c) = C
                                  then c\<lparr>taskIds := map (\<lambda>i. if i = k then n else i) (taskIds c)\<rparr>
                                  else c)
                             (columns b)\<rparr>)
           (append_in_column B C k bs) = append_in_column B C n bs"
proof -
  have cols: "map (\<lambda>c. if VStr (col_id c) = C
                        then c\<lparr>taskIds := map (\<lambda>i. if i = k then n else i) (taskIds c)\<rparr> else c)
                (map (\<lambda>c. if VStr (col_id c) = C then c\<lparr>taskIds := taskIds c @ [k]\<rparr> else c) cs) =
              map (\<lambda>c. if VStr (col_id c) = C then c\<lparr>taskIds := taskIds c @ [n]\<rparr> else c) cs"
    if "\<forall>c \<in> set cs. k \<notin> set (taskIds c)" for cs :: "column list"
    using that by (induction cs) (simp_all add: replace_notin del: map_map)
  show ?thesis
    using assms
  proof (induction bs)
    case Nil
    then show ?case by (simp add: append_in_column_def)
  next
    case (Cons b bs)
    then have "\<forall>c \<in> set (columns b). k \<notin> set (taskIds c)"
      by (simp add: in_board_task_ids)
    from cols [OF this] Cons show ?case
      by (simp add: append_in_column_def del: map_map)
  qed
qed

lemma not_listed_append_in_column:
  assumes "\<forall>b \<in> set bs. k \<notin> set (board_task_ids b)" and "n \<noteq> k"
  shows "\<forall>b \<in> set (append_in_column B C n bs). k \<notin> set (board_task_ids b)"
  using assms by (auto simp: append_in_column_def in_board_task_ids split: if_splits)

lemma slot_createTask_replace:
  "slot (createTask_replace k newTask cur) bi ci i =
     map_option (swap_in_slot (get_prop newTask ''boardId'') (get_prop newTask ''columnId'') k
                   (newTask_id newTask))
       (slot cur bi ci i)"
proof (cases "bi < length (boards cur)")
  case False
  then show ?thesis by (simp add: Let_def slot_def createTask_replace_def)
next
  case bi: True
  define b where "b = boards cur ! bi"
  show ?thesis
  proof (cases "ci < length (columns b)")
    case False
    then show ?thesis using bi by (simp add: Let_def slot_def createTask_replace_def b_def)
  next
    case ci: True
    define c where "c = columns b ! ci"
    show ?thesis
    proof (cases "i < length (taskIds c)")
      case False
      then show ?thesis
        using bi ci by (simp add: Let_def slot_def createTask_replace_def b_def c_def)
    next
      case True
      then show ?thesis
        using bi ci
        by (simp add: Let_def slot_def createTask_replace_def b_def c_def swap_in_slot_def)
    qed
  qed
qed

lemma replace_on_optimistic:
  assumes fresh: "fresh_id k st"
    and board: "get_prop r ''boardId'' = get_prop data ''boardId''"
    and col: "get_prop r ''status'' = get_prop data ''columnId''"
  shows "boards (createTask_replace k (newTask_of r) (createTask_optimistic data k createdAt updatedAt st)) =
           append_in_column (get_prop data ''boardId'') (get_prop data ''columnId'')
             (newTask_id (newTask_of r)) (boards st)"
    and "tasks (createTask_replace k (newTask_of r) (createTask_optimistic data k createdAt updatedAt st)) =
           AList.update (newTask_id (newTask_of r)) (newTask_of r) (tasks st)"
proof -
  let ?n = "newTask_id (newTask_of r)"
  let ?B = "get_prop data ''boardId''" and ?C = "get_prop data ''columnId''"
  let ?opt = "createTask_optimistic data k createdAt updatedAt st"
  from fresh have nk: "k \<notin> fst ` set (tasks st)"
    and nl: "\<forall>b \<in> set (boards st). k \<notin> set (board_task_ids b)"
    by (simp_all add: fresh_id_def)
  have b1: "boards ?opt = append_in_column ?B ?C k (boards st)"
    by (simp add: createTask_optimistic_def append_in_column_def)
  have B': "get_prop (newTask_of r) ''boardId'' = ?B"
    using board by (simp add: get_prop_newTask_of)
  have C': "get_prop (newTask_of r) ''columnId'' = ?C"
    using col by (simp add: get_prop_newTask_of)
  have "boards (createTask_replace k (newTask_of r) ?opt) =
          map (\<lambda>b. if VStr (board_id b) \<noteq> ?B then b
                   else b\<lparr>columns :=
                          map (\<lambda>c. if VStr (col_id c) = ?C
                                   then c\<lparr>taskIds := map (\<lambda>i. if i = k then ?n else i) (taskIds c)\<rparr>
                                   else c)
                              (columns b)\<rparr>)
              (append_in_column ?B ?C k (boards st))"
    unfolding createTask_replace_def B' C' by (simp add: b1)
  also have "\<dots> = append_in_column ?B ?C ?n (boards st)"
    by (rule replace_after_append_boards [OF nl])
  finally show "boards (createTask_replace k (newTask_of r) ?opt) =
      append_in_column ?B ?C ?n (boards st)" .
  show "tasks (createTask_replace k (newTask_of r) ?opt) = AList.update ?n (newTask_of r) (tasks st)"
    unfolding createTask_replace_def
    using nk by (simp add: createTask_optimistic_def delete_fresh_update)
qed

text \<open>
  Claim C4, amended. \<^verbatim>\<open>createTask\<close> puts the temporary id at the tail of the target
  column. On success, in whatever state the response finds the store, the temporary id
  leaves the task map, the server's task is stored under its id, and the replacement is
  made in place: every position of every column list of every board keeps what it
  held, except that a position holding the temporary id in the column named by the
  response's \<^verbatim>\<open>status\<close> on the board named by the response's \<^verbatim>\<open>boardId\<close> now holds
  the authoritative id (a map over the list, no entry is removed or inserted). When
  moreover the temporary id was fresh, the response names the board and column of the
  request, its id differs from the temporary one and nothing else changed the
  projection in between, the final boards are the starting boards with the authoritative
  id at the tail of the target column (the place the temporary id held), the task map
  holds the new task and no temporary one, and the temporary id stands in no list.
\<close>

theorem createTask_swaps_id_in_place:
  assumes token: "\<not> no_token token"
  shows "(\<forall>bi ci i.
            slot (fst (createTask_settle data k token (Resolved r) cur)) bi ci i =
              map_option
                (swap_in_slot (get_prop r ''boardId'') (get_prop r ''status'') k
                   (newTask_id (newTask_of r)))
                (slot cur bi ci i)) \<and>
         tasks (fst (createTask_settle data k token (Resolved r) cur)) =
           AList.update (newTask_id (newTask_of r)) (newTask_of r) (AList.delete k (tasks cur)) \<and>
         boards (createTask_optimistic data (tempId_of now) createdAt updatedAt st) =
           append_in_column (get_prop data ''boardId'') (get_prop data ''columnId'') (tempId_of now)
             (boards st) \<and>
         (fresh_id (tempId_of now) st \<and>
          projection cur' =
            projection (createTask_optimistic data (tempId_of now) createdAt updatedAt st) \<and>
          get_prop r ''boardId'' = get_prop data ''boardId'' \<and>
          get_prop r ''status'' = get_prop data ''columnId'' \<and>
          newTask_id (newTask_of r) \<noteq> tempId_of now \<longrightarrow>
            boards (fst (createTask_settle data (tempId_of now) token (Resolved r) cur')) =
              append_in_column (get_prop data ''boardId'') (get_prop data ''columnId'')
                (newTask_id (newTask_of r)) (boards st) \<and>
            tasks (fst (createTask_settle data (tempId_of now) token (Resolved r) cur')) =
              AList.update (newTask_id (newTask_of r)) (newTask_of r) (tasks st) \<and>
            map_of (tasks (fst (createTask_settle data (tempId_of now) token (Resolved r) cur')))
              (tempId_of now) = None \<and>
            \<not> listed_anywhere (tempId_of now)
                (fst (createTask_settle data (tempId_of now) token (Resolved r) cur')) \<and>
            boards (fst (createTask now createdAt updatedAt data token (Resolved r) st)) =
              append_in_column (get_prop data ''boardId'') (get_prop data ''columnId'')
                (newTask_id (newTask_of r)) (boards st) \<and>
            tasks (fst (createTask now createdAt updatedAt data token (Resolved r) st)) =
              AList.update (newTask_id (newTask_of r)) (newTask_of r) (tasks st) \<and>
            map_of (tasks (fst (createTask now createdAt updatedAt data token (Resolved r) st)))
              (tempId_of now) = None \<and>
            \<not> listed_anywhere (tempId_of now)
                (fst (createTask now createdAt updatedAt data token (Resolved r) st)) \<and>
            snd (snd (createTask now createdAt updatedAt data token (Resolved r) st)) =
              Some (newTask_id (newTask_of r)))"
proof -
  let ?n = "newTask_id (newTask_of r)"
  let ?B = "get_prop data ''boardId''" and ?C = "get_prop data ''columnId''"
  have settle: "fst (createTask_settle data x token (Resolved r) y) = createTask_replace x (newTask_of r) y"
    for x y using token by (simp add: createTask_settle_def)
  have A: "slot (fst (createTask_settle data k token (Resolved r) cur)) bi ci i =
      map_option (swap_in_slot (get_prop r ''boardId'') (get_prop r ''status'') k ?n) (slot cur bi ci i)"
    for bi ci i
    unfolding settle using slot_createTask_replace [of k "newTask_of r" cur bi ci i]
    by (simp add: get_prop_newTask_of)
  have T: "tasks (fst (createTask_settle data k token (Resolved r) cur)) =
      AList.update ?n (newTask_of r) (AList.delete k (tasks cur))"
    unfolding settle by (simp add: createTask_replace_def)
  have O: "boards (createTask_optimistic data (tempId_of now) createdAt updatedAt st) =
      append_in_column ?B ?C (tempId_of now) (boards st)"
    by (simp add: createTask_optimistic_def append_in_column_def)
  have B: "boards (fst (createTask_settle data (tempId_of now) token (Resolved r) y)) =
             append_in_column ?B ?C ?n (boards st) \<and>
           tasks (fst (createTask_settle data (tempId_of now) token (Resolved r) y)) =
             AList.update ?n (newTask_of r) (tasks st) \<and>
           map_of (tasks (fst (createTask_settle data (tempId_of now) token (Resolved r) y)))
             (tempId_of now) = None \<and>
           \<not> listed_anywhere (tempId_of now)
               (fst (createTask_settle data (tempId_of now) token (Resolved r) y))"
    if fresh: "fresh_id (tempId_of now) st"
      and p: "projection y = projection (createTask_optimistic data (tempId_of now) createdAt updatedAt st)"
      and board: "get_prop r ''boardId'' = ?B" and col: "get_prop r ''status'' = ?C"
      and new: "?n \<noteq> tempId_of now" for y
  proof -
    let ?k = "tempId_of now"
    let ?opt = "createTask_optimistic data ?k createdAt updatedAt st"
    let ?fin = "fst (createTask_settle data ?k token (Resolved r) y)"
    from fresh have nk: "?k \<notin> fst ` set (tasks st)"
      and nl: "\<forall>b \<in> set (boards st). ?k \<notin> set (board_task_ids b)"
      by (simp_all add: fresh_id_def)
    have "projection ?fin = projection (createTask_replace ?k (newTask_of r) ?opt)"
      unfolding settle using p by (rule createTask_replace_projection)
    then have b2: "boards ?fin = append_in_column ?B ?C ?n (boards st)"
      and t2: "tasks ?fin = AList.update ?n (newTask_of r) (tasks st)"
      using replace_on_optimistic [OF fresh board col, of createdAt updatedAt]
      by (simp_all add: projection_def)
    have t3: "map_of (tasks ?fin) ?k = None"
      unfolding t2 using nk new by (simp add: update_conv' map_of_eq_None_iff)
    have l: "\<not> listed_anywhere ?k ?fin"
      unfolding listed_anywhere_def b2
      using not_listed_append_in_column [OF nl, of ?n ?B ?C] new by blast
    from b2 t2 t3 l show ?thesis by blast
  qed
  have ret: "snd (snd (createTask now createdAt updatedAt data token (Resolved r) st)) = Some ?n"
    using token by (simp add: createTask_def createTask_settle_def)
  have comp: "fst (createTask now createdAt updatedAt data token (Resolved r) st) =
      fst (createTask_settle data (tempId_of now) token (Resolved r)
             (createTask_optimistic data (tempId_of now) createdAt updatedAt st))"
    by (simp add: createTask_def)
  show ?thesis
  proof (intro conjI allI impI)
    fix bi ci i
    show "slot (fst (createTask_settle data k token (Resolved r) cur)) bi ci i =
      map_option (swap_in_slot (get_prop r ''boardId'') (get_prop r ''status'') k ?n) (slot cur bi ci i)"
      by (rule A)
  next
    show "tasks (fst (createTask_settle data k token (Resolved r) cur)) =
      AList.update ?n (newTask_of r) (AList.delete k (tasks cur))" by (rule T)
  next
    show "boards (createTask_optimistic data (tempId_of now) createdAt updatedAt st) =
      append_in_column ?B ?C (tempId_of now) (boards st)" by (rule O)
  next
    assume h: "fresh_id (tempId_of now) st \<and>
          projection cur' =
            projection (createTask_optimistic data (tempId_of now) createdAt updatedAt st) \<and>
          get_prop r ''boardId'' = get_prop data ''boardId'' \<and>
          get_prop r ''status'' = get_prop data ''columnId'' \<and>
          newTask_id (newTask_of r) \<noteq> tempId_of now"
    then have g: "fresh_id (tempId_of now) st" "get_prop r ''boardId'' = ?B"
      "get_prop r ''status'' = ?C" "?n \<noteq> tempId_of now"
      and p: "projection cur' =
            projection (createTask_optimistic data (tempId_of now) createdAt updatedAt st)"
      by simp_all
    note own = B [OF g(1) p g(2) g(3) g(4)]
    note whole = B [OF g(1) refl g(2) g(3) g(4), folded comp]
    show "boards (fst (createTask_settle data (tempId_of now) token (Resolved r) cur')) =
              append_in_column ?B ?C ?n (boards st)" using own by blast
    show "tasks (fst (createTask_settle data (tempId_of now) token (Resolved r) cur')) =
              AList.update ?n (newTask_of r) (tasks st)" using own by blast
    show "map_of (tasks (fst (createTask_settle data (tempId_of now) token (Resolved r) cur')))
              (tempId_of now) = None" using own by blast
    show "\<not> listed_anywhere (tempId_of now)
                (fst (createTask_settle data (tempId_of now) token (Resolved r) cur'))"
      using own by blast
    show "boards (fst (createTask now createdAt updatedAt data token (Resolved r) st)) =
              append_in_column ?B ?C ?n (boards st)" using whole by blast
    show "tasks (fst (createTask now createdAt updatedAt data token (Resolved r) st)) =
              AList.update ?n (newTask_of r) (tasks st)" using whole by blast
    show "map_of (tasks (fst (createTask now createdAt updatedAt data token (Resolved r) st)))
              (tempId_of now) = None" using whole by blast
    show "\<not> listed_anywhere (tempId_of now)
                (fst (createTask now createdAt updatedAt data token (Resolved r) st))"
      using whole by blast
    show "snd (snd (createTask now createdAt updatedAt data token (Resolved r) st)) = Some ?n"
      by (rule ret)
  qed
qed


text \<open>
  Two creates in flight, temp-123 and temp-124, and the answer t99 to the first: t99
  takes the third place of todo, before temp-124. Then the specification's scenario, with
  nothing in between.
\<close>

theorem createTask_swaps_id_in_place_witness:
  "\<not> no_token (Some ''tok'') \<and>
   column_lists
     (createTask_optimistic second_task_data (tempId_of 124) ''c'' ''u''
        (createTask_optimistic new_task_data (tempId_of 123) ''c'' ''u'' scenario_B1)) =
     [(''todo'', [''t1'', ''t2'', ''temp-123'', ''temp-124'']), (''in-progress'', []), (''done'', [])] \<and>
   slot (fst (createTask_settle new_task_data (tempId_of 123) (Some ''tok'') (Resolved created_response)
                (createTask_optimistic second_task_data (tempId_of 124) ''c'' ''u''
                   (createTask_optimistic new_task_data (tempId_of 123) ''c'' ''u'' scenario_B1))))
        0 0 2 = Some (''B1'', ''todo'', ''t99'') \<and>
   column_lists
     (fst (createTask_settle new_task_data (tempId_of 123) (Some ''tok'') (Resolved created_response)
             (createTask_optimistic second_task_data (tempId_of 124) ''c'' ''u''
                (createTask_optimistic new_task_data (tempId_of 123) ''c'' ''u'' scenario_B1)))) =
     [(''todo'', [''t1'', ''t2'', ''t99'', ''temp-124'']), (''in-progress'', []), (''done'', [])] \<and>
   fresh_id (tempId_of 123) scenario_B1 \<and>
   column_lists (createTask_optimistic new_task_data (tempId_of 123) ''c'' ''u'' scenario_B1) =
     [(''todo'', [''t1'', ''t2'', ''temp-123'']), (''in-progress'', []), (''done'', [])] \<and>
   column_lists (fst (createTask 123 ''c'' ''u'' new_task_data (Some ''tok'') (Resolved created_response)
                        scenario_B1)) =
     [(''todo'', [''t1'', ''t2'', ''t99'']), (''in-progress'', []), (''done'', [])] \<and>
   map_of (tasks (fst (createTask 123 ''c'' ''u'' new_task_data (Some ''tok'') (Resolved created_response)
                        scenario_B1))) (tempId_of 123) = None \<and>
   \<not> listed_anywhere (tempId_of 123)
       (fst (createTask 123 ''c'' ''u'' new_task_data (Some ''tok'') (Resolved created_response)
               scenario_B1))"
proof -
  let ?opt = "createTask_optimistic new_task_data (tempId_of 123) ''c'' ''u'' scenario_B1"
  let ?two = "createTask_optimistic second_task_data (tempId_of 124) ''c'' ''u'' ?opt"
  let ?fin2 = "fst (createTask_settle new_task_data (tempId_of 123) (Some ''tok'')
                      (Resolved created_response) ?two)"
  let ?fin = "fst (createTask 123 ''c'' ''u'' new_task_data (Some ''tok'') (Resolved created_response)
                     scenario_B1)"
  have h1: "fresh_id (tempId_of 123) scenario_B1" by code_simp
  have h2: "\<not> no_token (Some ''tok'')" by code_simp
  have h3: "get_prop created_response ''boardId'' = get_prop new_task_data ''boardId''" by code_simp
  have h4: "get_prop created_response ''status'' = get_prop new_task_data ''columnId''" by code_simp
  have h5: "newTask_id (newTask_of created_response) \<noteq> tempId_of 123" by code_simp
  have c0: "column_lists ?two =
     [(''todo'', [''t1'', ''t2'', ''temp-123'', ''temp-124'']), (''in-progress'', []), (''done'', [])]"
    by code_simp
  have c1: "column_lists ?opt =
     [(''todo'', [''t1'', ''t2'', ''temp-123'']), (''in-progress'', []), (''done'', [])]" by code_simp
  have c2: "column_lists ?fin =
     [(''todo'', [''t1'', ''t2'', ''t99'']), (''in-progress'', []), (''done'', [])]" by code_simp
  have c3: "column_lists ?fin2 =
     [(''todo'', [''t1'', ''t2'', ''t99'', ''temp-124'']), (''in-progress'', []), (''done'', [])]"
    by code_simp
  note r = createTask_swaps_id_in_place [OF h2, where data = new_task_data and k = "tempId_of 123"
      and r = created_response and cur = ?two and now = 123 and createdAt = "''c''"
      and updatedAt = "''u''" and st = scenario_B1 and cur' = ?opt]
  from r have "slot ?fin2 0 0 2 =
      map_option (swap_in_slot (get_prop created_response ''boardId'')
                    (get_prop created_response ''status'') (tempId_of 123)
                    (newTask_id (newTask_of created_response)))
        (slot ?two 0 0 2)" by blast
  also have "\<dots> = Some (''B1'', ''todo'', ''t99'')" by code_simp
  finally have s: "slot ?fin2 0 0 2 = Some (''B1'', ''todo'', ''t99'')" .
  from r h1 h3 h4 h5 have t: "map_of (tasks ?fin) (tempId_of 123) = None"
    and l: "\<not> listed_anywhere (tempId_of 123) ?fin" by blast+
  from h2 c0 s c3 h1 c1 c2 t l show ?thesis by blast
qed

text \<open>
  Claim C4, as stated, fails: the replacement looks only at the column the response
  names, not at every list that holds the temporary id. When the optimistic task is
  dragged to another column before the response arrives, the temporary id stays in that
  column and the authoritative id is in no list.
\<close>

theorem createTask_swap_misses_moved_task:
  "column_lists (createTask_optimistic new_task_data (tempId_of 123) ''c'' ''u'' scenario_B1) =
     [(''todo'', [''t1'', ''t2'', ''temp-123'']), (''in-progress'', []), (''done'', [])] \<and>
   column_lists
     (after_move (createTask_optimistic new_task_data (tempId_of 123) ''c'' ''u'' scenario_B1)
        ''temp-123'' ''todo'' ''done'' 0) =
     [(''todo'', [''t1'', ''t2'']), (''in-progress'', []), (''done'', [''temp-123''])] \<and>
   column_lists
     (fst (createTask_settle new_task_data (tempId_of 123) (Some ''tok'') (Resolved created_response)
        (after_move (createTask_optimistic new_task_data (tempId_of 123) ''c'' ''u'' scenario_B1)
           ''temp-123'' ''todo'' ''done'' 0))) =
     [(''todo'', [''t1'', ''t2'']), (''in-progress'', []), (''done'', [''temp-123''])] \<and>
   listed_anywhere ''temp-123''
     (fst (createTask_settle new_task_data (tempId_of 123) (Some ''tok'') (Resolved created_response)
        (after_move (createTask_optimistic new_task_data (tempId_of 123) ''c'' ''u'' scenario_B1)
           ''temp-123'' ''todo'' ''done'' 0))) \<and>
   \<not> listed_anywhere ''t99''
     (fst (createTask_settle new_task_data (tempId_of 123) (Some ''tok'') (Resolved created_response)
        (after_move (createTask_optimistic new_task_data (tempId_of 123) ''c'' ''u'' scenario_B1)
           ''temp-123'' ''todo'' ''done'' 0)))"
  by code_simp


text \<open>
  Claim C9, as stated, fails for \<^verbatim>\<open>updateTask\<close> and \<^verbatim>\<open>deleteTask\<close>: both await the
  request before their only \<^verbatim>\<open>set\<close>. With the request issued, the state is still the
  one before the call; the change appears when the request has succeeded.
\<close>

theorem update_and_delete_wait_for_the_write:
  "updateTask_begin (Some ''tok'') ''t1'' title_update scenario_B1 =
     (scenario_B1, [ApiUpdateTask ''t1'' [(''title'', VStr ''Renamed''), (''status'', VUndefined)]]) \<and>
   projection (updateTask_settle ''t1'' title_update (Resolved ()) scenario_B1) \<noteq> projection scenario_B1 \<and>
   deleteTask_begin (Some ''tok'') ''t1'' scenario_B1 =
     (scenario_B1, [ApiDeleteTask ''t1''], Some (mk_task ''t1'' ''B1'' ''todo'')) \<and>
   column_lists (deleteTask_settle ''t1'' (Some (mk_task ''t1'' ''B1'' ''todo'')) (Resolved ()) scenario_B1) =
     [(''todo'', [''t2'']), (''in-progress'', []), (''done'', [])] \<and>
   projection (deleteTask_settle ''t1'' (Some (mk_task ''t1'' ''B1'' ''todo'')) (Resolved ()) scenario_B1)
     \<noteq> projection scenario_B1"
  by code_simp

text \<open>
  Claim C9, amended. \<^verbatim>\<open>createTask\<close> and \<^verbatim>\<open>moveTask\<close> change the projection before
  their write is issued: the request of \<^verbatim>\<open>createTask\<close> runs on the state that already
  holds the optimistic task, and \<^verbatim>\<open>moveTask\<close> returns the moved boards and the task's
  new \<^verbatim>\<open>columnId\<close> together with the write it has only scheduled. \<^verbatim>\<open>updateTask\<close> and
  \<^verbatim>\<open>deleteTask\<close> leave the state as it is until their write has completed; a rejected
  write only stores the message, the projection staying as it was, and a successful
  update then merges the changes into the task.
\<close>

theorem optimistic_create_and_move_only:
  "createTask now createdAt updatedAt data token result st =
     createTask_settle data (tempId_of now) token result
       (createTask_optimistic data (tempId_of now) createdAt updatedAt st) \<and>
   map_of (tasks (createTask_optimistic data (tempId_of now) createdAt updatedAt st)) (tempId_of now) =
     Some (optimisticTask data (tempId_of now) createdAt updatedAt) \<and>
   (moveTask st t src dst i = Inr (st', Some d) \<longrightarrow>
      (\<exists>task. map_of (tasks st) t = Some task \<and>
         boards st' = move_boards (get_prop task ''boardId'') t src dst i (boards st)) \<and>
      (\<exists>task'. map_of (tasks st') t = Some task' \<and> get_prop task' ''columnId'' = VStr dst) \<and>
      originalState d = st) \<and>
   fst (updateTask_begin token taskId updates st) = st \<and>
   fst (deleteTask_begin token taskId st) = st \<and>
   updateTask_settle taskId updates (Rejected e) st = st\<lparr>error := Some (message e)\<rparr> \<and>
   deleteTask_settle taskId task (Rejected e) st = st\<lparr>error := Some (message e)\<rparr> \<and>
   projection (st\<lparr>error := Some (message e)\<rparr>) = projection st \<and>
   tasks (updateTask_settle taskId updates (Resolved ()) st) =
     AList.update taskId (spread (case map_of (tasks st) taskId of None \<Rightarrow> [] | Some x \<Rightarrow> x) updates)
       (tasks st)"
proof -
  have mv: "moveTask st t src dst i = Inr (st', Some d) \<longrightarrow>
      (\<exists>task. map_of (tasks st) t = Some task \<and>
         boards st' = move_boards (get_prop task ''boardId'') t src dst i (boards st)) \<and>
      (\<exists>task'. map_of (tasks st') t = Some task' \<and> get_prop task' ''columnId'' = VStr dst) \<and>
      originalState d = st"
    by (auto simp: moveTask_def update_conv' get_prop_update split: option.splits if_splits)
  show ?thesis
    using mv
    by (simp add: createTask_def createTask_optimistic_def update_conv' updateTask_begin_def
        deleteTask_begin_def updateTask_settle_def deleteTask_settle_def projection_def)
qed

text \<open>
  The move of the scenario, and an update and a delete of t1 with their requests issued.
\<close>

theorem optimistic_create_and_move_only_witness:
  "moveTask scenario_B1 ''t1'' ''todo'' ''done'' 0 =
     Inr (after_move scenario_B1 ''t1'' ''todo'' ''done'' 0, Some scenario_deferred) \<and>
   boards (after_move scenario_B1 ''t1'' ''todo'' ''done'' 0) =
     move_boards (VStr ''B1'') ''t1'' ''todo'' ''done'' 0 (boards scenario_B1) \<and>
   fst (updateTask_begin (Some ''tok'') ''t1'' title_update scenario_B1) = scenario_B1 \<and>
   fst (deleteTask_begin (Some ''tok'') ''t1'' scenario_B1) = scenario_B1"
proof -
  have m: "moveTask scenario_B1 ''t1'' ''todo'' ''done'' 0 =
     Inr (after_move scenario_B1 ''t1'' ''todo'' ''done'' 0, Some scenario_deferred)" by code_simp
  have t: "map_of (tasks scenario_B1) ''t1'' = Some (mk_task ''t1'' ''B1'' ''todo'')" by code_simp
  have b: "get_prop (mk_task ''t1'' ''B1'' ''todo'') ''boardId'' = VStr ''B1''" by code_simp
  from optimistic_create_and_move_only [where now = 123 and data = new_task_data
      and token = "Some ''tok''" and result = "Rejected network_error" and st = scenario_B1
      and t = "''t1''" and src = "''todo''" and dst = "''done''" and i = 0
      and st' = "after_move scenario_B1 ''t1'' ''todo'' ''done'' 0" and d = scenario_deferred
      and taskId = "''t1''" and updates = title_update and e = network_error] m t b
  show ?thesis by auto
qed

section \<open>The server: notification store, deadline scheduler, socket rooms\<close>

lemma no_duplicate_key: "\<not> duplicate_key notificationSchema_indexes docs d"
  by (simp add: duplicate_key_def notificationSchema_indexes_def)

lemma deadline_type_known: "''task_deadline'' \<in> set notification_types"
  by (simp add: notification_types_def)

lemma create_deadline:
  "msg \<noteq> [] \<Longrightarrow>
   Notification_create notificationSchema_indexes now (deadline_input userId taskId boardId msg) docs =
     Inr (deadline_doc now userId taskId boardId msg, docs @ [deadline_doc now userId taskId boardId msg])"
  by (simp add: Notification_create_def deadline_input_def deadline_doc_def deadline_type_known
      no_duplicate_key Let_def)

lemma is_deadline_for_doc:
  "is_deadline_for u k (deadline_doc now userId taskId boardId msg) \<longleftrightarrow> u = userId \<and> k = taskId"
  by (auto simp: is_deadline_for_def deadline_doc_def)

text \<open>
  Claim C5, amended. The notification schema declares one index, on
  \<^verbatim>\<open>(userId, createdAt)\<close>, and it is not unique: the collection enforces no uniqueness on
  \<^verbatim>\<open>(userId, taskId, type)\<close>. \<^verbatim>\<open>Notification.create\<close> stores a task_deadline
  notification whatever the collection already holds, so each call adds one to the
  count for its user and task; only the scheduler's lookup before the call keeps
  duplicates out.
\<close>

theorem Notification_create_accepts_duplicates:
  assumes "msg \<noteq> []"
  shows "Notification_create notificationSchema_indexes now (deadline_input userId taskId boardId msg) docs =
           Inr (deadline_doc now userId taskId boardId msg,
                docs @ [deadline_doc now userId taskId boardId msg]) \<and>
         deadline_count (docs @ [deadline_doc now userId taskId boardId msg]) userId taskId =
           Suc (deadline_count docs userId taskId)"
  using assms by (simp add: create_deadline deadline_count_def is_deadline_for_doc)

text \<open>
  Claim C5, as stated, fails: creating the same task_deadline notification twice stores
  it twice.
\<close>

theorem deadline_notification_stored_twice:
  "Notification_create notificationSchema_indexes 1000
      (deadline_input ''alice'' ''k1'' ''b1'' ''Deadline approaching'') [] =
     Inr (deadline_doc 1000 ''alice'' ''k1'' ''b1'' ''Deadline approaching'',
          [deadline_doc 1000 ''alice'' ''k1'' ''b1'' ''Deadline approaching'']) \<and>
   Notification_create notificationSchema_indexes 1000
      (deadline_input ''alice'' ''k1'' ''b1'' ''Deadline approaching'')
      [deadline_doc 1000 ''alice'' ''k1'' ''b1'' ''Deadline approaching''] =
     Inr (deadline_doc 1000 ''alice'' ''k1'' ''b1'' ''Deadline approaching'',
          [deadline_doc 1000 ''alice'' ''k1'' ''b1'' ''Deadline approaching'',
           deadline_doc 1000 ''alice'' ''k1'' ''b1'' ''Deadline approaching'']) \<and>
   deadline_count
     [deadline_doc 1000 ''alice'' ''k1'' ''b1'' ''Deadline approaching'',
      deadline_doc 1000 ''alice'' ''k1'' ''b1'' ''Deadline approaching''] ''alice'' ''k1'' = 2"
  by code_simp

text \<open>
  A second create for the same user and task, an hour after the first.
\<close>

theorem Notification_create_accepts_duplicates_witness:
  "deadline_count [deadline_doc 1000 ''alice'' ''k1'' ''b1'' ''Deadline approaching''] ''alice'' ''k1'' = 1 \<and>
   Notification_create notificationSchema_indexes 2000
      (deadline_input ''alice'' ''k1'' ''b1'' ''Deadline approaching'')
      [deadline_doc 1000 ''alice'' ''k1'' ''b1'' ''Deadline approaching''] =
     Inr (deadline_doc 2000 ''alice'' ''k1'' ''b1'' ''Deadline approaching'',
          [deadline_doc 1000 ''alice'' ''k1'' ''b1'' ''Deadline approaching'',
           deadline_doc 2000 ''alice'' ''k1'' ''b1'' ''Deadline approaching'']) \<and>
   deadline_count
     [deadline_doc 1000 ''alice'' ''k1'' ''b1'' ''Deadline approaching'',
      deadline_doc 2000 ''alice'' ''k1'' ''b1'' ''Deadline approaching''] ''alice'' ''k1'' = 2"
proof -
  have m: "''Deadline approaching'' \<noteq> []" by simp
  have c: "deadline_count [deadline_doc 1000 ''alice'' ''k1'' ''b1'' ''Deadline approaching'']
             ''alice'' ''k1'' = 1" by code_simp
  from Notification_create_accepts_duplicates [OF m, of 2000 "''alice''" "''k1''" "''b1''"
      "[deadline_doc 1000 ''alice'' ''k1'' ''b1'' ''Deadline approaching'']"] c
  show ?thesis by simp
qed


lemma find_deadline_None:
  "find (is_deadline_for u k) docs = None \<longleftrightarrow> deadline_count docs u k = 0"
  by (auto simp: find_None_iff deadline_count_def filter_empty_conv)

lemma deadline_message_nonempty: "deadline_message t b \<noteq> []"
  by (simp add: deadline_message_def)

lemma process_task_no_failure:
  "process_task no_failure now (t, bo) sv =
     (case bo of
        None \<Rightarrow> (sv, None)
      | Some b \<Rightarrow>
          if deadline_count (notifications_coll sv) (t_userId t) (t_id t) = 0 then
            (sv\<lparr>notifications_coll := notifications_coll sv @
                    [deadline_doc now (t_userId t) (t_id t) (b_id b) (deadline_message t b)],
                console := console sv @ [''Deadline notification created for task: '' @ t_title t],
                emitted := emitted sv @
                    [(''user:'' @ t_userId t, ''new_notification'',
                      deadline_doc now (t_userId t) (t_id t) (b_id b) (deadline_message t b))]\<rparr>,
             None)
          else (sv, None))"
proof (cases "find (is_deadline_for (t_userId t) (t_id t)) (notifications_coll sv)")
  case None
  then have z: "deadline_count (notifications_coll sv) (t_userId t) (t_id t) = 0"
    by (simp add: find_deadline_None)
  show ?thesis
    by (cases bo)
       (simp_all add: process_task_def no_failure_def None z create_deadline
          deadline_message_nonempty Let_def)
next
  case (Some n)
  then have "find (is_deadline_for (t_userId t) (t_id t)) (notifications_coll sv) \<noteq> None" by simp
  then have z: "deadline_count (notifications_coll sv) (t_userId t) (t_id t) \<noteq> 0"
    by (simp add: find_deadline_None)
  show ?thesis
    using z by (cases bo) (simp_all add: process_task_def no_failure_def Some)
qed

lemma process_task_count:
  "deadline_count (notifications_coll (fst (process_task no_failure now (t, bo) sv))) u k =
     deadline_count (notifications_coll sv) u k +
       (if u = t_userId t \<and> k = t_id t \<and> bo \<noteq> None \<and> deadline_count (notifications_coll sv) u k = 0
        then 1 else 0)"
  by (cases bo) (auto simp: process_task_no_failure deadline_count_def is_deadline_for_doc)

lemma process_task_ok: "snd (process_task no_failure now (t, bo) sv) = None"
  by (cases bo) (simp_all add: process_task_no_failure)

lemma process_task_collections:
  "tasks_coll (fst (process_task no_failure now (t, bo) sv)) = tasks_coll sv"
  "boards_coll (fst (process_task no_failure now (t, bo) sv)) = boards_coll sv"
  by (cases bo; simp add: process_task_no_failure)+

lemma process_tasks_no_failure:
  "snd (process_tasks no_failure now tbs sv) = None \<and>
   tasks_coll (fst (process_tasks no_failure now tbs sv)) = tasks_coll sv \<and>
   boards_coll (fst (process_tasks no_failure now tbs sv)) = boards_coll sv \<and>
   deadline_count (notifications_coll (fst (process_tasks no_failure now tbs sv))) u k =
     deadline_count (notifications_coll sv) u k +
       (if deadline_count (notifications_coll sv) u k = 0 \<and>
           (\<exists>(t, bo) \<in> set tbs. t_userId t = u \<and> t_id t = k \<and> bo \<noteq> None)
        then 1 else 0)"
proof (induction tbs arbitrary: sv)
  case Nil
  then show ?case by simp
next
  case (Cons tb tbs)
  obtain t bo where tb: "tb = (t, bo)" by (cases tb)
  define sv1 where "sv1 = fst (process_task no_failure now (t, bo) sv)"
  have step: "process_task no_failure now (t, bo) sv = (sv1, None)"
    using process_task_ok [of now t bo sv] by (simp add: sv1_def prod_eq_iff)
  have run: "process_tasks no_failure now (tb # tbs) sv = process_tasks no_failure now tbs sv1"
    by (simp add: tb step)
  have c1: "deadline_count (notifications_coll sv1) u k =
     deadline_count (notifications_coll sv) u k +
       (if u = t_userId t \<and> k = t_id t \<and> bo \<noteq> None \<and> deadline_count (notifications_coll sv) u k = 0
        then 1 else 0)"
    unfolding sv1_def by (rule process_task_count)
  have coll: "tasks_coll sv1 = tasks_coll sv" "boards_coll sv1 = boards_coll sv"
    unfolding sv1_def by (rule process_task_collections)+
  from Cons.IH [of sv1] show ?case
    unfolding run by (auto simp: c1 coll tb)
qed

lemma due_tasks_have_board:
  "(\<exists>(t, bo) \<in> set (find_due_tasks now tomorrow sv). t_userId t = u \<and> t_id t = k \<and> bo \<noteq> None) \<longleftrightarrow>
   (\<exists>t \<in> set (tasks_coll sv). due_soon now tomorrow t \<and> board_of sv t \<noteq> None \<and>
       t_userId t = u \<and> t_id t = k)"
  by (auto simp: find_due_tasks_def populate_def board_of_def)

lemma checkDeadlines_no_failure:
  "tasks_coll (checkDeadlines no_failure now tomorrow sv) = tasks_coll sv \<and>
   boards_coll (checkDeadlines no_failure now tomorrow sv) = boards_coll sv \<and>
   deadline_count (notifications_coll (checkDeadlines no_failure now tomorrow sv)) u k =
     deadline_count (notifications_coll sv) u k +
       (if deadline_count (notifications_coll sv) u k = 0 \<and>
           (\<exists>t \<in> set (tasks_coll sv). due_soon now tomorrow t \<and> board_of sv t \<noteq> None \<and>
               t_userId t = u \<and> t_id t = k)
        then 1 else 0)"
proof -
  let ?r = "process_tasks no_failure now (find_due_tasks now tomorrow sv) sv"
  have "snd ?r = None" using process_tasks_no_failure by blast
  then have eqr: "checkDeadlines no_failure now tomorrow sv = fst ?r"
    by (cases ?r) (simp add: checkDeadlines_def no_failure_def)
  show ?thesis
    unfolding eqr
    using process_tasks_no_failure [of now "find_due_tasks now tomorrow sv" sv u k]
    unfolding due_tasks_have_board by blast
qed

text \<open>
  Claim C6, amended. Take two successive ticks in which no operation fails, over a task
  set the ticks leave as it was, and a task whose due date lies in the window of the
  first or of the second tick (status not done). When the task's board document exists,
  the task has after both ticks exactly one task_deadline notification if it had none
  before, and as many as before if it had some: each tick looks for an existing
  notification for (task.userId, task.id) before creating one and skips the creation
  when it finds one; a task due at the first tick has its notification after that tick
  already. When the board document does not exist (task ids being unique), the ticks
  create nothing for the task.
\<close>

theorem deadline_dedupe:
  assumes "t \<in> set (tasks_coll sv)"
    and "due_soon now tomorrow t \<or> due_soon now' tomorrow' t"
  shows "(board_of sv t \<noteq> None \<longrightarrow>
            deadlines_of (checkDeadlines no_failure now' tomorrow'
                            (checkDeadlines no_failure now tomorrow sv)) t =
              max 1 (deadlines_of sv t) \<and>
            (due_soon now tomorrow t \<longrightarrow>
               deadlines_of (checkDeadlines no_failure now tomorrow sv) t = max 1 (deadlines_of sv t))) \<and>
         (board_of sv t = None \<and> distinct (map t_id (tasks_coll sv)) \<longrightarrow>
            deadlines_of (checkDeadlines no_failure now' tomorrow'
                            (checkDeadlines no_failure now tomorrow sv)) t =
              deadlines_of sv t)"
proof -
  let ?sv1 = "checkDeadlines no_failure now tomorrow sv"
  let ?sv2 = "checkDeadlines no_failure now' tomorrow' ?sv1"
  define E1 where "E1 \<longleftrightarrow> (\<exists>t' \<in> set (tasks_coll sv). due_soon now tomorrow t' \<and> board_of sv t' \<noteq> None \<and>
               t_userId t' = t_userId t \<and> t_id t' = t_id t)"
  define E2 where "E2 \<longleftrightarrow> (\<exists>t' \<in> set (tasks_coll sv). due_soon now' tomorrow' t' \<and> board_of sv t' \<noteq> None \<and>
               t_userId t' = t_userId t \<and> t_id t' = t_id t)"
  define c0 c1 c2 where "c0 = deadlines_of sv t" and "c1 = deadlines_of ?sv1 t"
    and "c2 = deadlines_of ?sv2 t"
  note one = checkDeadlines_no_failure [of now tomorrow sv "t_userId t" "t_id t"]
  note two = checkDeadlines_no_failure [of now' tomorrow' ?sv1 "t_userId t" "t_id t"]
  have coll: "tasks_coll ?sv1 = tasks_coll sv" "boards_coll ?sv1 = boards_coll sv"
    using one by simp_all
  have s1: "c1 = c0 + (if c0 = 0 \<and> E1 then 1 else 0)"
    using one unfolding c0_def c1_def E1_def deadlines_of_def by blast
  have "board_of ?sv1 x = board_of sv x" for x
    by (simp add: board_of_def coll)
  then have s2: "c2 = c1 + (if c1 = 0 \<and> E2 then 1 else 0)"
    using two unfolding c1_def c2_def E2_def deadlines_of_def coll by simp
  have with_board: "c2 = max 1 c0 \<and> (due_soon now tomorrow t \<longrightarrow> c1 = max 1 c0)"
    if b: "board_of sv t \<noteq> None"
  proof -
    have e1: "due_soon now tomorrow t \<Longrightarrow> E1"
      unfolding E1_def using assms(1) b by blast
    have e2: "due_soon now' tomorrow' t \<Longrightarrow> E2"
      unfolding E2_def using assms(1) b by blast
    from assms(2) e1 e2 have "E1 \<or> E2" by blast
    with s1 s2 have "c2 = max 1 c0" by (auto simp: max_def)
    moreover from s1 e1 have "due_soon now tomorrow t \<longrightarrow> c1 = max 1 c0" by (auto simp: max_def)
    ultimately show ?thesis by blast
  qed
  have without_board: "c2 = c0"
    if b: "board_of sv t = None" and d: "distinct (map t_id (tasks_coll sv))"
  proof -
    from d have inj: "inj_on t_id (set (tasks_coll sv))" by (simp add: distinct_map)
    have same: "t' = t" if "t' \<in> set (tasks_coll sv)" and "t_id t' = t_id t" for t'
      using inj_onD [OF inj that(2) that(1) assms(1)] .
    have n1: "\<not> E1"
    proof
      assume E1
      then obtain t' where "t' \<in> set (tasks_coll sv)" "board_of sv t' \<noteq> None" "t_id t' = t_id t"
        unfolding E1_def by blast
      with same [of t'] b show False by simp
    qed
    have n2: "\<not> E2"
    proof
      assume E2
      then obtain t' where "t' \<in> set (tasks_coll sv)" "board_of sv t' \<noteq> None" "t_id t' = t_id t"
        unfolding E2_def by blast
      with same [of t'] b show False by simp
    qed
    from n1 s1 have "c1 = c0" by simp
    with n2 s2 show ?thesis by simp
  qed
  show ?thesis
  proof (intro conjI impI)
    assume b: "board_of sv t \<noteq> None"
    from with_board [OF b] show "deadlines_of ?sv2 t = max 1 (deadlines_of sv t)"
      unfolding c0_def c2_def by (rule conjunct1)
    assume "due_soon now tomorrow t"
    with with_board [OF b] show "deadlines_of ?sv1 t = max 1 (deadlines_of sv t)"
      unfolding c0_def c1_def by simp
  next
    assume "board_of sv t = None \<and> distinct (map t_id (tasks_coll sv))"
    then have "c2 = c0" using without_board by simp
    then show "deadlines_of ?sv2 t = deadlines_of sv t"
      unfolding c0_def c2_def .
  qed
qed


text \<open>
  A task of board b1 due in fourteen hours, and two ticks an hour apart; then the same
  task with a board id no board has.
\<close>

theorem deadline_dedupe_witness:
  "due_soon 1000 86401000 (due_task ''k1'' ''b1'') \<and>
   deadlines_of (mk_server [due_task ''k1'' ''b1''] [private_board]) (due_task ''k1'' ''b1'') = 0 \<and>
   deadlines_of (checkDeadlines no_failure 1000 86401000
                   (mk_server [due_task ''k1'' ''b1''] [private_board])) (due_task ''k1'' ''b1'') = 1 \<and>
   deadlines_of (checkDeadlines no_failure 3601000 90001000
                   (checkDeadlines no_failure 1000 86401000
                      (mk_server [due_task ''k1'' ''b1''] [private_board]))) (due_task ''k1'' ''b1'') = 1 \<and>
   board_of (mk_server [due_task ''k1'' ''gone''] [private_board]) (due_task ''k1'' ''gone'') = None \<and>
   deadlines_of (checkDeadlines no_failure 3601000 90001000
                   (checkDeadlines no_failure 1000 86401000
                      (mk_server [due_task ''k1'' ''gone''] [private_board])))
     (due_task ''k1'' ''gone'') =
   deadlines_of (mk_server [due_task ''k1'' ''gone''] [private_board]) (due_task ''k1'' ''gone'')"
proof -
  let ?sv = "mk_server [due_task ''k1'' ''b1''] [private_board]"
  let ?sw = "mk_server [due_task ''k1'' ''gone''] [private_board]"
  have h1: "due_task ''k1'' ''b1'' \<in> set (tasks_coll ?sv)" by code_simp
  have h2: "board_of ?sv (due_task ''k1'' ''b1'') \<noteq> None" by code_simp
  have h3: "due_soon 1000 86401000 (due_task ''k1'' ''b1'')" by code_simp
  have z: "deadlines_of ?sv (due_task ''k1'' ''b1'') = 0" by code_simp
  from h3 have h3': "due_soon 1000 86401000 (due_task ''k1'' ''b1'') \<or>
      due_soon 3601000 90001000 (due_task ''k1'' ''b1'')" by blast
  have g1: "due_task ''k1'' ''gone'' \<in> set (tasks_coll ?sw)" by code_simp
  have g2: "board_of ?sw (due_task ''k1'' ''gone'') = None" by code_simp
  have g3: "due_soon 1000 86401000 (due_task ''k1'' ''gone'') \<or>
      due_soon 3601000 90001000 (due_task ''k1'' ''gone'')" by code_simp
  have g4: "distinct (map t_id (tasks_coll ?sw))" by code_simp
  from deadline_dedupe [OF h1 h3'] h2 h3 z
  have a: "deadlines_of (checkDeadlines no_failure 1000 86401000 ?sv) (due_task ''k1'' ''b1'') = 1"
    and b: "deadlines_of (checkDeadlines no_failure 3601000 90001000
                   (checkDeadlines no_failure 1000 86401000 ?sv)) (due_task ''k1'' ''b1'') = 1"
    by simp_all
  from deadline_dedupe [OF g1 g3] g2 g4
  have c: "deadlines_of (checkDeadlines no_failure 3601000 90001000
                   (checkDeadlines no_failure 1000 86401000 ?sw)) (due_task ''k1'' ''gone'') =
           deadlines_of ?sw (due_task ''k1'' ''gone'')"
    by blast
  from h3 z a b g2 c show ?thesis by blast
qed

text \<open>
  Claim C6, as stated for every qualifying task, fails: the tick creates the notification
  only \<^verbatim>\<open>if (!existing && task.boardId)\<close>. A task due within the day whose board
  document does not exist gets no notification, however many ticks run.
\<close>

theorem deadline_skipped_without_board:
  "due_soon 1000 86401000 (due_task ''k1'' ''gone'') \<and>
   due_soon 3601000 90001000 (due_task ''k1'' ''gone'') \<and>
   board_of (mk_server [due_task ''k1'' ''gone''] [private_board]) (due_task ''k1'' ''gone'') = None \<and>
   deadlines_of (checkDeadlines no_failure 3601000 90001000
                   (checkDeadlines no_failure 1000 86401000
                      (mk_server [due_task ''k1'' ''gone''] [private_board])))
     (due_task ''k1'' ''gone'') = 0"
  by code_simp


lemma process_tasks_abort:
  "process_tasks fails now (pre @ [tb]) sv = (sv', Some e) \<Longrightarrow>
   process_tasks fails now (pre @ tb # rest) sv = (sv', Some e)"
proof (induction pre arbitrary: sv)
  case Nil
  then show ?case by (auto split: prod.splits option.splits)
next
  case (Cons x pre)
  obtain s r where step: "process_task fails now x sv = (s, r)" by (cases "process_task fails now x sv")
  show ?case
  proof (cases r)
    case None
    with Cons.prems step have "process_tasks fails now (pre @ [tb]) s = (sv', Some e)" by simp
    then have "process_tasks fails now (pre @ tb # rest) s = (sv', Some e)" by (rule Cons.IH)
    with None step show ?thesis by simp
  next
    case (Some e')
    with Cons.prems step show ?thesis by simp
  qed
qed

text \<open>
  Claim C7, amended. The \<^verbatim>\<open>try\<close> of a tick encloses the whole loop. When the processing
  of a task throws (its lookup, the creation or the emit), the loop is left: the tick
  ends in the state reached at that point, with the error logged, and the tasks after
  the failing one are not processed in this tick. The exception does not leave the tick.
\<close>

theorem failure_ends_the_tick:
  assumes "fails FindTasks = None"
    and "find_due_tasks now tomorrow sv = pre @ tb # rest"
    and "process_tasks fails now (pre @ [tb]) sv = (sv', Some e)"
  shows "checkDeadlines fails now tomorrow sv = log_error e sv' \<and>
         process_tasks fails now (pre @ tb # rest) sv = (sv', Some e) \<and>
         notifications_coll (checkDeadlines fails now tomorrow sv) = notifications_coll sv' \<and>
         emitted (checkDeadlines fails now tomorrow sv) = emitted sv'"
proof -
  have "process_tasks fails now (pre @ tb # rest) sv = (sv', Some e)"
    using assms(3) by (rule process_tasks_abort)
  then show ?thesis
    using assms(1,2) by (simp add: checkDeadlines_def log_error_def)
qed

text \<open>
  Claim C7, as stated, fails: with two tasks due, a lookup that throws for the first one
  leaves the second without its notification, which it gets when nothing fails.
\<close>

theorem failure_skips_remaining_tasks:
  "find_due_tasks 1000 86401000 (mk_server [due_task ''k1'' ''b1'', due_task ''k2'' ''b1''] [private_board]) =
     [(due_task ''k1'' ''b1'', Some private_board), (due_task ''k2'' ''b1'', Some private_board)] \<and>
   deadlines_of (checkDeadlines no_failure 1000 86401000
                   (mk_server [due_task ''k1'' ''b1'', due_task ''k2'' ''b1''] [private_board]))
     (due_task ''k2'' ''b1'') = 1 \<and>
   deadlines_of (checkDeadlines lookup_k1_fails 1000 86401000
                   (mk_server [due_task ''k1'' ''b1'', due_task ''k2'' ''b1''] [private_board]))
     (due_task ''k2'' ''b1'') = 0 \<and>
   notifications_coll (checkDeadlines lookup_k1_fails 1000 86401000
                   (mk_server [due_task ''k1'' ''b1'', due_task ''k2'' ''b1''] [private_board])) = [] \<and>
   console (checkDeadlines lookup_k1_fails 1000 86401000
                   (mk_server [due_task ''k1'' ''b1'', due_task ''k2'' ''b1''] [private_board])) =
     [''Deadline checker error: connection lost'']"
  by code_simp

text \<open>
  The same run: the tick ends where the lookup for k1 threw.
\<close>

theorem failure_ends_the_tick_witness:
  "lookup_k1_fails FindTasks = None \<and>
   find_due_tasks 1000 86401000 (mk_server [due_task ''k1'' ''b1'', due_task ''k2'' ''b1''] [private_board]) =
     [] @ (due_task ''k1'' ''b1'', Some private_board) # [(due_task ''k2'' ''b1'', Some private_board)] \<and>
   checkDeadlines lookup_k1_fails 1000 86401000
       (mk_server [due_task ''k1'' ''b1'', due_task ''k2'' ''b1''] [private_board]) =
     log_error (MongoError ''connection lost'')
       (mk_server [due_task ''k1'' ''b1'', due_task ''k2'' ''b1''] [private_board])"
proof -
  let ?sv = "mk_server [due_task ''k1'' ''b1'', due_task ''k2'' ''b1''] [private_board]"
  have h1: "lookup_k1_fails FindTasks = None" by code_simp
  have h2: "find_due_tasks 1000 86401000 ?sv =
     [] @ (due_task ''k1'' ''b1'', Some private_board) # [(due_task ''k2'' ''b1'', Some private_board)]"
    by code_simp
  have h3: "process_tasks lookup_k1_fails 1000 ([] @ [(due_task ''k1'' ''b1'', Some private_board)]) ?sv =
     (?sv, Some (MongoError ''connection lost''))" by code_simp
  from failure_ends_the_tick [OF h1 h2 h3] h1 h2 show ?thesis by blast
qed


text \<open>
  Claim C8, amended. On \<^verbatim>\<open>join_board\<close> the server joins the socket to the room
  \<^verbatim>\<open>board:<id>\<close> of whatever id the client sent: the handler takes the socket and the
  payload, reads no board and no user, and verifies no membership.
\<close>

theorem join_board_is_unconditional:
  "(''board:'' @ to_string boardId, socketId) \<in> rooms (on_join_board socketId boardId sv) \<and>
   rooms (on_join_board socketId boardId sv) = insert (''board:'' @ to_string boardId, socketId) (rooms sv) \<and>
   boards_coll (on_join_board socketId boardId sv) = boards_coll sv"
  by (simp add: on_join_board_def)

text \<open>
  Claim C8, as stated, fails: a socket whose user is neither member nor owner of the
  private board b1 is in the room \<^verbatim>\<open>board:b1\<close> after sending \<^verbatim>\<open>join_board\<close>.
\<close>

theorem stranger_joins_private_board:
  "boards_coll (mk_server [] [private_board]) = [private_board] \<and>
   \<not> b_isPublic private_board \<and>
   \<not> isMember private_board ''mallory'' \<and>
   \<not> isOwner private_board ''mallory'' \<and>
   (''board:b1'', ''socket-of-mallory'') \<in>
     rooms (on_join_board ''socket-of-mallory'' (VStr ''b1'') (mk_server [] [private_board]))"
  by (simp add: on_join_board_def mk_server_def private_board_def isMember_def isOwner_def)

end
